theory Spec2Isabelle
  imports Main
begin

section \<open>Syntax tree\<close>

text \<open>
  The refactorings work on the syntax tree produced by the parser. A tree node is an
  object with a \<open>type\<close> tag, an optional source range \<open>loc\<close>, a few scalar attributes
  and its child nodes under named fields. The traversal of the tree is driven by the
  list of child fields of each node type, so a node is modelled uniformly: the tag, the
  identity of the object, the range, the two scalar attributes the code reads
  (\<open>name\<close> of an identifier, \<open>shorthand\<close> of an object property), the attribute
  \<open>computed\<close> of an object property or a member expression, which the code does not
  read but which tells a key or a property name from an operand in brackets, and the
  children in traversal order, each with the field it hangs under (an array field
  contributes one entry per element, an absent child none).
\<close>

datatype nodeType =
    File | Program | Identifier | VariableDeclaration | VariableDeclarator
  | AssignmentExpression | FunctionDeclaration | BlockStatement | ObjectProperty
  | MemberExpression | UnaryExpression
  | ExportNamedDeclaration | ExportDefaultDeclaration | ExportAllDeclaration
  | ExpressionStatement | ReturnStatement | ClassDeclaration | IfStatement
  | WhileStatement | SwitchStatement | ForStatement | ThrowStatement
  | OtherType string

record Position =
  line :: int
  column :: int

record SourceLocation =
  locStart :: Position
  locEnd :: Position

text \<open>
  \<open>nid\<close> is the identity of the node object: the source's \<open>===\<close> and \<open>!==\<close> on nodes
  compare it.
\<close>

datatype Node =
  Node (ntype: nodeType) (nid: nat) (loc: "SourceLocation option")
       (name: string) (shorthand: bool) (computed: bool) (kids: "(string \<times> Node) list")

text \<open>\<open>node.field\<close> for an array field, and for a field holding one node or nothing.\<close>

definition children :: "string \<Rightarrow> Node \<Rightarrow> Node list" where
  "children field n = map snd (filter (\<lambda>kc. fst kc = field) (kids n))"

definition child :: "string \<Rightarrow> Node \<Rightarrow> Node option" where
  "child field n = (case children field n of [] \<Rightarrow> None | c # _ \<Rightarrow> Some c)"

text \<open>\<open>parent.field === node\<close>: the field holds this very object.\<close>

definition sameNode :: "Node option \<Rightarrow> Node \<Rightarrow> bool" where
  "sameNode field n = (case field of None \<Rightarrow> False | Some c \<Rightarrow> nid c = nid n)"

text \<open>
  Structural equality of nodes (\<open>ast.areEqual\<close>, \<open>areEquivalent\<close> of \<open>ast/identity\<close>)
  is not among the sources. Every function that compares nodes takes it as its first
  argument \<open>areEqual\<close>; its second operand may be absent.
\<close>

type_synonym equality = "Node \<Rightarrow> Node option \<Rightarrow> bool"

section \<open>Selections\<close>

text \<open>
  Modelled from the spec: the class \<open>Selection\<close> (\<open>editor/selection\<close>) is not among
  the sources. Following sections 3 and 4.1 of the specification, a selection is a pair
  of positions, positions are ordered by line and then column and are indexed the same
  way in the tree and in the editor, \<open>isInsideNode\<close> holds iff the range of the node
  fully contains the selection (a node without a range contains nothing), and the
  extension operations widen a selection to a line boundary or to the boundary of
  another selection and never shrink it: \<open>extendStartTo\<close> moves the start back to the
  end of a selection lying before, \<open>extendEndTo\<close> moves the end forward to the start
  of a selection lying after.
\<close>

record Selection =
  start :: Position
  end' :: Position

definition isBefore :: "Position \<Rightarrow> Position \<Rightarrow> bool" where
  "isBefore a b = (line a < line b \<or> (line a = line b \<and> column a < column b))"

definition isSameOrBefore :: "Position \<Rightarrow> Position \<Rightarrow> bool" where
  "isSameOrBefore a b = (line a < line b \<or> (line a = line b \<and> column a \<le> column b))"

definition fromAST :: "SourceLocation \<Rightarrow> Selection" where
  "fromAST l = \<lparr>start = locStart l, end' = locEnd l\<rparr>"

definition isInside :: "Selection \<Rightarrow> Selection \<Rightarrow> bool" where
  "isInside s outer =
     (isSameOrBefore (start outer) (start s) \<and> isSameOrBefore (end' s) (end' outer))"

definition isInsideNode :: "Selection \<Rightarrow> Node \<Rightarrow> bool" where
  "isInsideNode s n = (case loc n of None \<Rightarrow> False | Some l \<Rightarrow> isInside s (fromAST l))"

definition extendStartTo :: "Selection \<Rightarrow> Selection \<Rightarrow> Selection" where
  "extendStartTo s other = (if isBefore (end' other) (start s) then s\<lparr>start := end' other\<rparr> else s)"

definition extendEndTo :: "Selection \<Rightarrow> Selection \<Rightarrow> Selection" where
  "extendEndTo s other = (if isBefore (end' s) (start other) then s\<lparr>end' := start other\<rparr> else s)"

definition extendToStartOfLine :: "Selection \<Rightarrow> Selection" where
  "extendToStartOfLine s = s\<lparr>start := \<lparr>line = line (start s), column = 0\<rparr>\<rparr>"

definition extendToStartOfNextLine :: "Selection \<Rightarrow> Selection" where
  "extendToStartOfNextLine s = s\<lparr>end' := \<lparr>line = line (end' s) + 1, column = 0\<rparr>\<rparr>"

text \<open>
  Modelled from the spec: the guard \<open>isSelectableNode\<close> (\<open>ast\<close>) is not among the
  sources; a node is selectable when it has a range of its own. The narrowed types
  \<open>SelectableNode\<close>, \<open>SelectableIdentifier\<close> and \<open>SelectableVariableDeclarator\<close> are a
  node together with the range the guard found.
\<close>

definition isSelectableNode :: "Node \<Rightarrow> bool" where
  "isSelectableNode n = (loc n \<noteq> None)"

type_synonym SelectableNode = "Node \<times> SourceLocation"

section \<open>Tree traversal\<close>

text \<open>
  Modelled from the spec: the traversal collaborator (section 6) walks a tree and calls
  \<open>enter(node, ancestors)\<close> on every node, parents before children, children in field
  order; \<open>ancestors\<close> lists the entries \<open>{node, key}\<close> from the root of the walk to the
  immediate parent. \<open>visits\<close> is the sequence of these calls and \<open>traverse\<close> threads the
  variable the handler updates through them.
\<close>

record ancestor =
  node :: Node
  key :: string

fun visits :: "Node \<Rightarrow> ancestor list \<Rightarrow> (Node \<times> ancestor list) list"
and visitsKids ::
  "Node \<Rightarrow> (string \<times> Node) list \<Rightarrow> ancestor list \<Rightarrow> (Node \<times> ancestor list) list" where
  "visits (Node ty i l nm sh cp ks) ancestors =
     (Node ty i l nm sh cp ks, ancestors) # visitsKids (Node ty i l nm sh cp ks) ks ancestors"
| "visitsKids parent [] ancestors = []"
| "visitsKids parent ((k, c) # rest) ancestors =
     visits c (ancestors @ [\<lparr>node = parent, key = k\<rparr>]) @ visitsKids parent rest ancestors"

definition traverse :: "Node \<Rightarrow> (Node \<Rightarrow> ancestor list \<Rightarrow> 's \<Rightarrow> 's) \<Rightarrow> 's \<Rightarrow> 's" where
  "traverse n enter s = fold (\<lambda>(m, ancestors). enter m ancestors) (visits n []) s"

text \<open>\<open>last\<close> of \<open>array.ts\<close>: the last element, \<open>undefined\<close> for the empty array.\<close>

definition last' :: "'a list \<Rightarrow> 'a option" where
  "last' array = (if array = [] then None else Some (array ! (length array - 1)))"

section \<open>Scope paths (ast/scope.ts)\<close>

text \<open>
  A path of the path-based traversal: the type of its node (absent when the path holds
  no node) and the path of the parent. The type guards \<open>t.isX\<close> applied to a path read
  its \<open>type\<close>; applied to an absent parent path they answer false.
\<close>

datatype NodePath = NodePath (pathType: "nodeType option") (parentPath: "NodePath option")

definition isType :: "nodeType \<Rightarrow> NodePath option \<Rightarrow> bool" where
  "isType ty p = (case p of None \<Rightarrow> False | Some q \<Rightarrow> pathType q = Some ty)"

definition isExportDeclaration :: "NodePath option \<Rightarrow> bool" where
  "isExportDeclaration p =
     (isType ExportAllDeclaration p \<or> isType ExportDefaultDeclaration p
      \<or> isType ExportNamedDeclaration p)"

text \<open>
  \<open>path.findParent(callback)\<close>: climbs the parent paths and returns the first one the
  callback accepts, and nothing when the root is passed.
\<close>

fun findParent :: "(NodePath \<Rightarrow> bool) \<Rightarrow> NodePath \<Rightarrow> NodePath option" where
  "findParent callback (NodePath ty None) = None"
| "findParent callback (NodePath ty (Some p)) =
     (if callback p then Some p else findParent callback p)"

definition scopeCallback :: "NodePath \<Rightarrow> bool" where
  "scopeCallback parentPath' =
     (isType ExpressionStatement (Some parentPath')
      \<or> (isType VariableDeclaration (Some parentPath')
          \<and> \<not> isExportDeclaration (parentPath parentPath'))
      \<or> isType ReturnStatement (Some parentPath')
      \<or> isType ClassDeclaration (Some parentPath')
      \<or> (isType IfStatement (Some parentPath')
          \<and> \<not> isType IfStatement (parentPath parentPath'))
      \<or> isType WhileStatement (Some parentPath')
      \<or> isType SwitchStatement (Some parentPath')
      \<or> isExportDeclaration (Some parentPath')
      \<or> isType ForStatement (Some parentPath')
      \<or> isType ThrowStatement (Some parentPath'))"

definition findScopePath :: "NodePath \<Rightarrow> NodePath option" where
  "findScopePath path = findParent scopeCallback path"

text \<open>The proper ancestors of a path, nearest first.\<close>

fun ancestry :: "NodePath \<Rightarrow> NodePath list" where
  "ancestry (NodePath ty None) = []"
| "ancestry (NodePath ty (Some p)) = p # ancestry p"

text \<open>
  The fixed set of statement-like kinds, in the words of the specification: a path is
  of such a kind when its node is an expression statement, a variable declaration that
  is not directly inside an export declaration, a return statement, a class
  declaration, an if statement whose parent is not an if statement, a while statement,
  a switch statement, an export declaration, a for statement or a throw statement.
\<close>

definition exportKinds :: "nodeType set" where
  "exportKinds = {ExportAllDeclaration, ExportDefaultDeclaration, ExportNamedDeclaration}"

definition parentKind :: "NodePath \<Rightarrow> nodeType option" where
  "parentKind p = (case parentPath p of None \<Rightarrow> None | Some q \<Rightarrow> pathType q)"

definition statementLike :: "NodePath \<Rightarrow> bool" where
  "statementLike p =
     (case pathType p of
        None \<Rightarrow> False
      | Some ty \<Rightarrow>
          ty \<in> {ExpressionStatement, ReturnStatement, ClassDeclaration, WhileStatement,
                SwitchStatement, ForStatement, ThrowStatement}
          \<or> ty \<in> exportKinds
          \<or> (ty = VariableDeclaration
              \<and> (case parentKind p of None \<Rightarrow> True | Some pt \<Rightarrow> pt \<notin> exportKinds))
          \<or> (ty = IfStatement \<and> parentKind p \<noteq> Some IfStatement))"

section \<open>Shadowing (ast/scope.ts, inline-variable)\<close>

text \<open>
  \<open>isShadowIn\<close> stands twice in the sources with the same body, once over
  \<open>ast.areEqual\<close> and once over \<open>areEquivalent\<close>.
\<close>

definition isDeclaredInFunction :: "equality \<Rightarrow> Node \<Rightarrow> Node \<Rightarrow> bool" where
  "isDeclaredInFunction areEqual id' n =
     (ntype n = FunctionDeclaration
      \<and> list_ex (\<lambda>param. areEqual id' (Some param)) (children ''params'' n))"

definition isDeclaredInScope :: "equality \<Rightarrow> Node \<Rightarrow> Node \<Rightarrow> bool" where
  "isDeclaredInScope areEqual id' n =
     (ntype n = BlockStatement
      \<and> list_ex
          (\<lambda>c. ntype c = VariableDeclaration
             \<and> list_ex
                 (\<lambda>declaration. ntype declaration = VariableDeclarator
                    \<and> areEqual id' (child ''id'' declaration)
                    \<and> \<not> sameNode (child ''id'' declaration) id')
                 (children ''declarations'' c))
          (children ''body'' n))"

definition isShadowIn :: "equality \<Rightarrow> Node \<Rightarrow> ancestor list \<Rightarrow> bool" where
  "isShadowIn areEqual id' ancestors =
     list_ex (\<lambda>a. isDeclaredInFunction areEqual id' (node a) \<or> isDeclaredInScope areEqual id' (node a))
       ancestors"

section \<open>Inline variable\<close>

subsection \<open>The inlinable code\<close>

record MultiDeclarationsLocs =
  isOtherAfterCurrent :: bool
  current :: SourceLocation
  other :: SourceLocation

record IdentifierToReplace =
  siteLoc :: SourceLocation
  isInUnaryExpression :: bool
  shorthandKey :: "string option"

text \<open>
  The leaf \<open>InlinableIdentifier\<close> holds the declared identifier (a selectable
  identifier: the node and its range), the scope and the selection of the initial
  value; the composite \<open>InlinableDeclarations\<close> wraps a child.
\<close>

datatype InlinableCode =
    InlinableIdentifier SelectableNode Node Selection
  | InlinableDeclarations InlinableCode MultiDeclarationsLocs

text \<open>What the code may throw: the type error of a read on \<open>undefined\<close>, or any other error.\<close>

datatype error = TypeError | OtherError string

fun selection :: "InlinableCode \<Rightarrow> Selection" where
  "selection (InlinableIdentifier id' scope sel) = sel"
| "selection (InlinableDeclarations c locs) = selection c"

fun isRedeclared :: "equality \<Rightarrow> InlinableCode \<Rightarrow> bool" where
  "isRedeclared areEqual (InlinableIdentifier id' scope sel) =
     traverse scope
       (\<lambda>n ancestors result.
          if ntype n \<noteq> AssignmentExpression then result
          else if \<not> areEqual (fst id') (child ''left'' n) then result
          else True)
       False"
| "isRedeclared areEqual (InlinableDeclarations c locs) = isRedeclared areEqual c"

text \<open>
  \<open>findExportedIdNames\<close> is not among the sources: the functions that need the
  exported names of a scope take it as an argument.
\<close>

fun isExported :: "(Node \<Rightarrow> string list) \<Rightarrow> InlinableCode \<Rightarrow> bool" where
  "isExported findExportedIdNames (InlinableIdentifier id' scope sel) =
     (name (fst id') \<in> set (findExportedIdNames scope))"
| "isExported findExportedIdNames (InlinableDeclarations c locs) =
     isExported findExportedIdNames c"

text \<open>
  The guard \<open>ast.isFunctionDeclaration(parent)\<close> is applied to the entry of the
  ancestors (\<open>{node, key}\<close>), not to its node: an entry has no \<open>type\<close>, and an absent
  entry is no node, so the guard answers false.
\<close>

definition isFunctionDeclarationEntry :: "ancestor option \<Rightarrow> bool" where
  "isFunctionDeclarationEntry parent = False"

definition shorthandKeyOf :: "Node \<Rightarrow> Node \<Rightarrow> string option" where
  "shorthandKeyOf parentNode n =
     (if ntype parentNode = ObjectProperty \<and> shorthand parentNode \<and> ntype n = Identifier
      then Some (name n) else None)"

text \<open>
  The handler of \<open>identifiersToReplace\<close>. Reading \<open>parent.node\<close> of an absent parent
  (the node is the root of the walk) throws; once thrown, no later node is handled.
\<close>

definition replaceEnter ::
  "equality \<Rightarrow> SelectableNode \<Rightarrow> Node \<Rightarrow> ancestor list
     \<Rightarrow> error + IdentifierToReplace list \<Rightarrow> error + IdentifierToReplace list" where
  "replaceEnter areEqual id' n ancestors result =
     (case result of
        Inl e \<Rightarrow> Inl e
      | Inr sites \<Rightarrow>
          (case loc n of
             None \<Rightarrow> Inr sites
           | Some nodeLoc \<Rightarrow>
               if \<not> areEqual (fst id') (Some n) then Inr sites
               else if isShadowIn areEqual (fst id') ancestors then Inr sites
               else if isInside (fromAST nodeLoc) (fromAST (snd id')) then Inr sites
               else if isFunctionDeclarationEntry (last' ancestors) then Inr sites
               else
                 (case last' ancestors of
                    None \<Rightarrow> Inl TypeError
                  | Some parent \<Rightarrow>
                      if ntype (node parent) = ObjectProperty
                         \<and> sameNode (child ''key'' (node parent)) n then Inr sites
                      else if ntype (node parent) = MemberExpression
                         \<and> sameNode (child ''property'' (node parent)) n then Inr sites
                      else
                        Inr (sites @
                          [\<lparr>siteLoc = nodeLoc,
                            isInUnaryExpression = (ntype (node parent) = UnaryExpression),
                            shorthandKey = shorthandKeyOf (node parent) n\<rparr>]))))"

fun identifiersToReplace :: "equality \<Rightarrow> InlinableCode \<Rightarrow> error + IdentifierToReplace list" where
  "identifiersToReplace areEqual (InlinableIdentifier id' scope sel) =
     traverse scope (replaceEnter areEqual id') (Inr [])"
| "identifiersToReplace areEqual (InlinableDeclarations c locs) =
     identifiersToReplace areEqual c"

fun codeToRemoveSelection :: "InlinableCode \<Rightarrow> Selection" where
  "codeToRemoveSelection (InlinableIdentifier id' scope sel) =
     extendToStartOfNextLine (extendToStartOfLine (extendStartTo sel (fromAST (snd id'))))"
| "codeToRemoveSelection (InlinableDeclarations c locs) =
     (if isOtherAfterCurrent locs
      then extendEndTo (fromAST (current locs)) (fromAST (other locs))
      else extendStartTo (fromAST (current locs)) (fromAST (other locs)))"

subsection \<open>Finding the inlinable code\<close>

text \<open>
  \<open>findInlinableCode\<close> walks the whole parsed tree with the path-based traversal, which
  enters every node below the root with its parent, parents first. Its handler first
  gives a node without a range the range of a parent named export.
\<close>

definition setLoc :: "SourceLocation option \<Rightarrow> Node \<Rightarrow> Node" where
  "setLoc l n = Node (ntype n) (nid n) l (name n) (shorthand n) (computed n) (kids n)"

definition inheritLoc :: "Node \<Rightarrow> Node \<Rightarrow> Node" where
  "inheritLoc parent n =
     (if ntype parent = ExportNamedDeclaration \<and> \<not> isSelectableNode n
      then setLoc (loc parent) n else n)"

text \<open>
  The assignment \<open>node.loc = parent.loc\<close> changes the tree, and the scope and the
  identifier kept in the result are references into it: the getters read them after
  the walk, when every node below them has been entered. \<open>settleIn parent n\<close> is the
  node \<open>n\<close> as the finished walk leaves it, below a parent already entered, and
  \<open>settled n\<close> is that state for a node already entered itself.
\<close>

fun settleIn :: "Node \<Rightarrow> Node \<Rightarrow> Node" where
  "settleIn parent (Node ty i l nm sh cp ks) =
     (let l' = loc (inheritLoc parent (Node ty i l nm sh cp ks)) in
      Node ty i l' nm sh cp (map (\<lambda>(k, c). (k, settleIn (Node ty i l' nm sh cp ks) c)) ks))"

definition settled :: "Node \<Rightarrow> Node" where
  "settled n =
     Node (ntype n) (nid n) (loc n) (name n) (shorthand n) (computed n)
       (map (\<lambda>(k, c). (k, settleIn n c)) (kids n))"

definition selectableDeclarators :: "Node \<Rightarrow> SelectableNode list" where
  "selectableDeclarators n =
     List.map_filter (\<lambda>d. map_option (Pair d) (loc d)) (children ''declarations'' n)"

text \<open>
  Lines 83--87 and 112--116: the identifier and the initial value of a declarator must
  both be selectable, and the leaf is built over the parent of the declaration.
\<close>

definition inlinableIdentifier :: "Node \<Rightarrow> Node \<Rightarrow> InlinableCode option" where
  "inlinableIdentifier parent declaration =
     (case child ''id'' declaration of
        None \<Rightarrow> None
      | Some id' \<Rightarrow>
          (if ntype id' \<noteq> Identifier then None
           else case loc id' of
             None \<Rightarrow> None
           | Some idLoc \<Rightarrow>
               (case child ''init'' declaration of
                  None \<Rightarrow> None
                | Some init \<Rightarrow>
                    (case loc init of
                       None \<Rightarrow> None
                     | Some valueLoc \<Rightarrow>
                         Some (InlinableIdentifier (settled id', idLoc) (settled parent)
                                 (fromAST valueLoc))))))"

text \<open>\<open>declarations[i]\<close>: \<open>undefined\<close> outside the array.\<close>

definition at :: "'a list \<Rightarrow> int \<Rightarrow> 'a option" where
  "at xs i = (if 0 \<le> i \<and> i < int (length xs) then Some (xs ! nat i) else None)"

definition declarationsLocsAt :: "SelectableNode list \<Rightarrow> nat \<Rightarrow> MultiDeclarationsLocs option" where
  "declarationsLocsAt declarations index =
     (case at declarations (int index) of
        None \<Rightarrow> None
      | Some declaration \<Rightarrow>
          (let previousDeclaration = at declarations (int index - 1);
               nextDeclaration = at declarations (int index + 1)
           in case nextDeclaration of
                Some next \<Rightarrow>
                  Some \<lparr>isOtherAfterCurrent = True, current = snd declaration, other = snd next\<rparr>
              | None \<Rightarrow>
                  (case previousDeclaration of
                     None \<Rightarrow> None
                   | Some previous \<Rightarrow>
                       Some \<lparr>isOtherAfterCurrent = False, current = snd declaration,
                             other = snd previous\<rparr>)))"

text \<open>
  The value one round of the \<open>forEach\<close> over the declarators assigns to \<open>result\<close>, if
  it assigns one.
\<close>

definition inlinableDeclarations ::
  "Selection \<Rightarrow> Node \<Rightarrow> SelectableNode list \<Rightarrow> nat \<Rightarrow> InlinableCode option" where
  "inlinableDeclarations sel parent declarations index =
     (case at declarations (int index) of
        None \<Rightarrow> None
      | Some declaration \<Rightarrow>
          if \<not> isInsideNode sel (fst declaration) then None
          else
            (case declarationsLocsAt declarations index of
               None \<Rightarrow> None
             | Some declarationsLocs \<Rightarrow>
                 (case inlinableIdentifier parent (fst declaration) of
                    None \<Rightarrow> None
                  | Some inlinableId \<Rightarrow>
                      Some (InlinableDeclarations inlinableId declarationsLocs))))"

definition assign :: "'a option \<Rightarrow> 'a option \<Rightarrow> 'a option" where
  "assign v result = (case v of None \<Rightarrow> result | Some w \<Rightarrow> Some w)"

definition enter :: "Selection \<Rightarrow> Node \<Rightarrow> Node \<Rightarrow> InlinableCode option \<Rightarrow> InlinableCode option" where
  "enter sel parent n result =
     (if ntype n \<noteq> VariableDeclaration then result
      else if \<not> isInsideNode sel n then result
      else
        (let declarations = selectableDeclarators n in
         if length declarations = 1
         then assign (inlinableIdentifier parent (fst (declarations ! 0))) result
         else fold (\<lambda>index. assign (inlinableDeclarations sel parent declarations index))
                [0 ..< length declarations] result))"

fun walk :: "Selection \<Rightarrow> Node \<Rightarrow> Node \<Rightarrow> InlinableCode option \<Rightarrow> InlinableCode option" where
  "walk sel parent (Node ty i l nm sh cp ks) result =
     (let n = inheritLoc parent (Node ty i l nm sh cp ks) in
      fold (\<lambda>(k, c). walk sel n c) ks (enter sel parent n result))"

definition findInlinableCode :: "Node \<Rightarrow> Selection \<Rightarrow> InlinableCode option" where
  "findInlinableCode ast sel = fold (\<lambda>(k, c). walk sel ast c) (kids ast) None"

subsection \<open>The refactoring\<close>

datatype ErrorReason =
    DidNotFoundInlinableCode | CantInlineRedeclaredVariables
  | CantInlineExportedVariables | DidNotFoundInlinableCodeIdentifiers

record Edit =
  code :: string
  editSelection :: Selection

text \<open>
  The one call \<open>inlineVariable\<close> makes on the editor: \<open>showError\<close> with a reason, or
  \<open>readThenWrite\<close> with a selection and the edits its callback builds from the code the
  editor read there.
\<close>

datatype EditorCall = ShowError ErrorReason | ReadThenWrite Selection "Edit list"

text \<open>
  The text one site is replaced with. A null or empty \<open>shorthandKey\<close> is falsy.
\<close>

definition replacementCode :: "IdentifierToReplace \<Rightarrow> string \<Rightarrow> string" where
  "replacementCode site inlinedCode =
     (if isInUnaryExpression site then ''('' @ inlinedCode @ '')''
      else case shorthandKey site of
             None \<Rightarrow> inlinedCode
           | Some k \<Rightarrow> if k = [] then inlinedCode else k @ '': '' @ inlinedCode)"

definition modifications :: "InlinableCode \<Rightarrow> IdentifierToReplace list \<Rightarrow> string \<Rightarrow> Edit list" where
  "modifications inlinableCode idsToReplace inlinedCode =
     map (\<lambda>site. \<lparr>code = replacementCode site inlinedCode,
                   editSelection = fromAST (siteLoc site)\<rparr>) idsToReplace
     @ [\<lparr>code = [], editSelection = codeToRemoveSelection inlinableCode\<rparr>]"

text \<open>
  \<open>inlineVariable\<close> on the parsed code \<open>ast\<close>; \<open>read\<close> is the editor's reading of the
  code at a selection.
\<close>

definition inlineVariable ::
  "equality \<Rightarrow> (Node \<Rightarrow> string list) \<Rightarrow> (Selection \<Rightarrow> string) \<Rightarrow> Node \<Rightarrow> Selection
     \<Rightarrow> error + EditorCall" where
  "inlineVariable areEqual findExportedIdNames read ast sel =
     (case findInlinableCode ast sel of
        None \<Rightarrow> Inr (ShowError DidNotFoundInlinableCode)
      | Some inlinableCode \<Rightarrow>
          if isRedeclared areEqual inlinableCode
          then Inr (ShowError CantInlineRedeclaredVariables)
          else if isExported findExportedIdNames inlinableCode
          then Inr (ShowError CantInlineExportedVariables)
          else
            (case identifiersToReplace areEqual inlinableCode of
               Inl e \<Rightarrow> Inl e
             | Inr idsToReplace \<Rightarrow>
                 if length idsToReplace = 0
                 then Inr (ShowError DidNotFoundInlinableCodeIdentifiers)
                 else Inr (ReadThenWrite (selection inlinableCode)
                        (modifications inlinableCode idsToReplace
                           (read (selection inlinableCode))))))"

subsection \<open>The vocabulary of the specification\<close>

text \<open>
  The declared identifier and the defining scope of an inlinable code: those of the
  leaf it is or wraps.
\<close>

fun declaredId :: "InlinableCode \<Rightarrow> SelectableNode" where
  "declaredId (InlinableIdentifier id' scope sel) = id'"
| "declaredId (InlinableDeclarations c locs) = declaredId c"

fun definingScope :: "InlinableCode \<Rightarrow> Node" where
  "definingScope (InlinableIdentifier id' scope sel) = scope"
| "definingScope (InlinableDeclarations c locs) = definingScope c"

text \<open>
  The guards of the handler of \<open>identifiersToReplace\<close> on a node met with its
  ancestors: the node lies in the range of the declared identifier; the parent is an
  object property and holds the node as its \<open>key\<close>; the parent is a member expression
  and holds the node as its \<open>property\<close>. A node is collected when it is equal to the
  identifier and passes every guard.
\<close>

definition isDeclarationSite :: "SelectableNode \<Rightarrow> Node \<Rightarrow> bool" where
  "isDeclarationSite id' n =
     (case loc n of None \<Rightarrow> False | Some l \<Rightarrow> isInside (fromAST l) (fromAST (snd id')))"

definition holdsAsKey :: "Node \<Rightarrow> ancestor list \<Rightarrow> bool" where
  "holdsAsKey n ancestors =
     (case last' ancestors of
        None \<Rightarrow> False
      | Some parent \<Rightarrow>
          ntype (node parent) = ObjectProperty \<and> sameNode (child ''key'' (node parent)) n)"

definition holdsAsProperty :: "Node \<Rightarrow> ancestor list \<Rightarrow> bool" where
  "holdsAsProperty n ancestors =
     (case last' ancestors of
        None \<Rightarrow> False
      | Some parent \<Rightarrow>
          ntype (node parent) = MemberExpression
          \<and> sameNode (child ''property'' (node parent)) n)"

definition isCollected :: "equality \<Rightarrow> SelectableNode \<Rightarrow> Node \<Rightarrow> ancestor list \<Rightarrow> bool" where
  "isCollected areEqual id' n ancestors =
     (areEqual (fst id') (Some n)
      \<and> \<not> isDeclarationSite id' n
      \<and> \<not> isShadowIn areEqual (fst id') ancestors
      \<and> \<not> holdsAsKey n ancestors
      \<and> \<not> holdsAsProperty n ancestors)"

text \<open>The range recorded for a visited node: its own range when it is collected.\<close>

definition collectedLocAt ::
  "equality \<Rightarrow> SelectableNode \<Rightarrow> Node \<times> ancestor list \<Rightarrow> SourceLocation option" where
  "collectedLocAt areEqual id' v =
     (if isCollected areEqual id' (fst v) (snd v) then loc (fst v) else None)"

text \<open>
  The replacement sites in the words of the specification. A node of the scope, met
  with its ancestors, is a replacement site when it is structurally equal to the
  declared identifier, is not the declaration site itself, is not shadowed (no ancestor
  is a function declaration with an equal parameter, or a block whose body declares an
  equal identifier on another node), is not used as the key of an object property and
  is not used as the property name of a member expression. Keys and property names are
  syntactic positions: the operand of a computed key \<^verbatim>\<open>{[foo]: 1}\<close> or of a
  computed access \<^verbatim>\<open>bar[foo]\<close> is a value reference, not a key or a name.
\<close>

definition redefines :: "equality \<Rightarrow> Node \<Rightarrow> Node \<Rightarrow> bool" where
  "redefines areEqual id' a =
     ((ntype a = FunctionDeclaration
        \<and> (\<exists>param \<in> set (children ''params'' a). areEqual id' (Some param)))
      \<or> (ntype a = BlockStatement
          \<and> (\<exists>c \<in> set (children ''body'' a). ntype c = VariableDeclaration
                \<and> (\<exists>d \<in> set (children ''declarations'' c). ntype d = VariableDeclarator
                      \<and> areEqual id' (child ''id'' d) \<and> \<not> sameNode (child ''id'' d) id'))))"

definition isShadowed :: "equality \<Rightarrow> Node \<Rightarrow> ancestor list \<Rightarrow> bool" where
  "isShadowed areEqual id' ancestors = (\<exists>a \<in> set ancestors. redefines areEqual id' (node a))"

definition isObjectPropertyKey :: "Node \<Rightarrow> ancestor list \<Rightarrow> bool" where
  "isObjectPropertyKey n ancestors =
     (case last' ancestors of
        None \<Rightarrow> False
      | Some parent \<Rightarrow>
          ntype (node parent) = ObjectProperty \<and> \<not> computed (node parent)
          \<and> sameNode (child ''key'' (node parent)) n)"

definition isMemberPropertyName :: "Node \<Rightarrow> ancestor list \<Rightarrow> bool" where
  "isMemberPropertyName n ancestors =
     (case last' ancestors of
        None \<Rightarrow> False
      | Some parent \<Rightarrow>
          ntype (node parent) = MemberExpression \<and> \<not> computed (node parent)
          \<and> sameNode (child ''property'' (node parent)) n)"

definition isReplacementSite :: "equality \<Rightarrow> SelectableNode \<Rightarrow> Node \<Rightarrow> ancestor list \<Rightarrow> bool" where
  "isReplacementSite areEqual id' n ancestors =
     (areEqual (fst id') (Some n)
      \<and> \<not> isDeclarationSite id' n
      \<and> \<not> isShadowed areEqual (fst id') ancestors
      \<and> \<not> isObjectPropertyKey n ancestors
      \<and> \<not> isMemberPropertyName n ancestors)"

definition siteLocAt ::
  "equality \<Rightarrow> SelectableNode \<Rightarrow> Node \<times> ancestor list \<Rightarrow> SourceLocation option" where
  "siteLocAt areEqual id' v =
     (if isReplacementSite areEqual id' (fst v) (snd v) then loc (fst v) else None)"

text \<open>The operand of a computed key or of a computed access.\<close>

definition isComputedOperand :: "Node \<Rightarrow> ancestor list \<Rightarrow> bool" where
  "isComputedOperand n ancestors =
     (case last' ancestors of
        None \<Rightarrow> False
      | Some parent \<Rightarrow>
          computed (node parent) \<and> (holdsAsKey n ancestors \<or> holdsAsProperty n ancestors))"

text \<open>
  The text that replaces a site \<open>n\<close> below the parent node \<open>p\<close>: the initial value in
  parentheses below a unary expression, the name and the initial value for an
  identifier below a shorthand object property, the initial value as it is otherwise.
\<close>

definition replacementFor :: "Node \<Rightarrow> Node \<Rightarrow> string \<Rightarrow> string" where
  "replacementFor p n inlinedCode =
     (if ntype p = UnaryExpression then ''('' @ inlinedCode @ '')''
      else if ntype p = ObjectProperty \<and> shorthand p \<and> ntype n = Identifier \<and> name n \<noteq> []
      then name n @ '': '' @ inlinedCode
      else inlinedCode)"

definition editAt ::
  "equality \<Rightarrow> SelectableNode \<Rightarrow> string \<Rightarrow> Node \<times> ancestor list \<Rightarrow> Edit option" where
  "editAt areEqual id' inlinedCode v =
     (if isCollected areEqual id' (fst v) (snd v)
      then (case (loc (fst v), last' (snd v)) of
              (Some l, Some parent) \<Rightarrow>
                Some \<lparr>code = replacementFor (node parent) (fst v) inlinedCode,
                      editSelection = fromAST l\<rparr>
            | _ \<Rightarrow> None)
      else None)"

text \<open>The site recorded for a visited node below a parent, when it is collected.\<close>

definition siteAt ::
  "equality \<Rightarrow> SelectableNode \<Rightarrow> Node \<times> ancestor list \<Rightarrow> IdentifierToReplace option" where
  "siteAt areEqual id' v =
     (if isCollected areEqual id' (fst v) (snd v)
      then (case (loc (fst v), last' (snd v)) of
              (Some l, Some parent) \<Rightarrow>
                Some \<lparr>siteLoc = l,
                      isInUnaryExpression = (ntype (node parent) = UnaryExpression),
                      shorthandKey = shorthandKeyOf (node parent) (fst v)\<rparr>
            | _ \<Rightarrow> None)
      else None)"

text \<open>
  The identifier is reassigned: some assignment expression of the defining scope has a
  left side equal to it.
\<close>

definition isReassigned :: "equality \<Rightarrow> InlinableCode \<Rightarrow> bool" where
  "isReassigned areEqual c =
     list_ex (\<lambda>v. ntype (fst v) = AssignmentExpression
                \<and> areEqual (fst (declaredId c)) (child ''left'' (fst v)))
       (visits (definingScope c) [])"

text \<open>
  The values the walk of \<open>findInlinableCode\<close> assigns to \<open>result\<close>, in the order of the
  assignments: those of the handler on one node, and those of the whole walk.
\<close>

definition assignedAt :: "Selection \<Rightarrow> Node \<Rightarrow> Node \<Rightarrow> InlinableCode list" where
  "assignedAt sel parent n =
     (if ntype n \<noteq> VariableDeclaration then []
      else if \<not> isInsideNode sel n then []
      else
        (let declarations = selectableDeclarators n in
         if length declarations = 1
         then (case inlinableIdentifier parent (fst (declarations ! 0)) of
                 None \<Rightarrow> [] | Some c \<Rightarrow> [c])
         else List.map_filter (inlinableDeclarations sel parent declarations)
                [0 ..< length declarations]))"

fun assignments :: "Selection \<Rightarrow> Node \<Rightarrow> Node \<Rightarrow> InlinableCode list" where
  "assignments sel parent (Node ty i l nm sh cp ks) =
     (let n = inheritLoc parent (Node ty i l nm sh cp ks) in
      assignedAt sel parent n @ concat (map (\<lambda>(k, c). assignments sel n c) ks))"

definition allAssignments :: "Node \<Rightarrow> Selection \<Rightarrow> InlinableCode list" where
  "allAssignments ast sel = concat (map (\<lambda>(k, c). assignments sel ast c) (kids ast))"

text \<open>The nodes the walk of \<open>findInlinableCode\<close> enters, as the handler sees them.\<close>

fun enteredNodes :: "Node \<Rightarrow> Node \<Rightarrow> Node list" where
  "enteredNodes parent (Node ty i l nm sh cp ks) =
     (let n = inheritLoc parent (Node ty i l nm sh cp ks) in
      n # concat (map (\<lambda>(k, c). enteredNodes n c) ks))"

definition allEntered :: "Node \<Rightarrow> Node list" where
  "allEntered ast = concat (map (\<lambda>(k, c). enteredNodes ast c) (kids ast))"

text \<open>The same nodes, each with the parent the handler receives with it.\<close>

fun enteredPairs :: "Node \<Rightarrow> Node \<Rightarrow> (Node \<times> Node) list" where
  "enteredPairs parent (Node ty i l nm sh cp ks) =
     (let n = inheritLoc parent (Node ty i l nm sh cp ks) in
      (parent, n) # concat (map (\<lambda>(k, c). enteredPairs n c) ks))"

definition allEnteredPairs :: "Node \<Rightarrow> (Node \<times> Node) list" where
  "allEnteredPairs ast = concat (map (\<lambda>(k, c). enteredPairs ast c) (kids ast))"

text \<open>The variable \<open>result\<close> after the values \<open>ws\<close> were assigned to it in turn.\<close>

definition overwrite :: "'a option \<Rightarrow> 'a list \<Rightarrow> 'a option" where
  "overwrite result ws = (if ws = [] then result else Some (last ws))"

fun isMultiDeclarator :: "InlinableCode \<Rightarrow> bool" where
  "isMultiDeclarator (InlinableIdentifier id' scope sel) = False"
| "isMultiDeclarator (InlinableDeclarations c locs) = True"

section \<open>Code actions (action provider)\<close>

text \<open>
  A refactoring with its action provider: the key and the title of the command, the
  message, the preference flag, the optional \<open>updateMessage\<close> and \<open>createVisitor\<close>. A
  visitor has an optional \<open>enter\<close> handler and optional handlers by node type. What a
  handler does with the callback it was created with is modelled by its outcome on a
  path: it throws, or it returns after calling the callback on the listed paths.
\<close>

type_synonym handler = "NodePath \<Rightarrow> error + NodePath list"

record Visitor =
  visitorEnter :: "handler option"
  visitorNode :: "nodeType \<Rightarrow> handler option"

record Refactoring =
  commandKey :: string
  commandTitle :: string
  message :: string
  isPreferred :: "bool option"
  updateMessage :: "(NodePath \<Rightarrow> string) option"
  createVisitor :: "Selection \<Rightarrow> error + Visitor"

record CodeAction =
  actionTitle :: string
  actionIsPreferred :: "bool option"
  command :: string
  actionCommandTitle :: string

text \<open>
  The collaborators of the provider, none of them among the sources: the ignored
  folders of the configuration, the quick-fix setting of a command key, the editor
  that may be created (its code and its selection), and the parser with the path-based
  traversal, giving the paths entered in the parsed code or the error thrown.
\<close>

record VSCodeEditor =
  editorCode :: string
  editorSelection :: Selection

record Host =
  getIgnoredFolders :: "string list"
  shouldShowInQuickFix :: "string \<Rightarrow> bool"
  createVSCodeEditor :: "VSCodeEditor option"
  parsedPaths :: "string \<Rightarrow> error + NodePath list"

text \<open>\<open>filePath.includes(part)\<close>: the part occurs in the path.\<close>

definition stringIncludes :: "string \<Rightarrow> string \<Rightarrow> bool" where
  "stringIncludes filePath part =
     list_ex (\<lambda>i. take (length part) (drop i filePath) = part) [0 ..< Suc (length filePath)]"

definition isNavigatingAnIgnoredFile :: "Host \<Rightarrow> string \<Rightarrow> bool" where
  "isNavigatingAnIgnoredFile host filePath =
     list_ex (\<lambda>ignored. stringIncludes filePath (''/'' @ ignored @ ''/'')) (getIgnoredFolders host)"

text \<open>
  \<open>Map.set\<close> on the map of applicable refactorings, kept as the list of its entries
  in insertion order: a key already present keeps its place and takes the new value.
\<close>

fun mapSet :: "string \<Rightarrow> 'v \<Rightarrow> (string \<times> 'v) list \<Rightarrow> (string \<times> 'v) list" where
  "mapSet k v [] = [(k, v)]"
| "mapSet k v (e # es) = (if fst e = k then (k, v) # es else e # mapSet k v es)"

text \<open>
  The callback given to \<open>createVisitor\<close>: the message of the refactoring is updated
  when it has an \<open>updateMessage\<close>, and the refactoring is set under its key.
\<close>

definition onMatch ::
  "Refactoring \<Rightarrow> NodePath \<Rightarrow> (string \<times> Refactoring) list \<Rightarrow> (string \<times> Refactoring) list" where
  "onMatch refactoring visitedPath applicableRefactorings =
     (let refactoring' =
            (case updateMessage refactoring of
               None \<Rightarrow> refactoring
             | Some f \<Rightarrow> refactoring\<lparr>message := f visitedPath\<rparr>)
      in mapSet (commandKey refactoring) refactoring' applicableRefactorings)"

text \<open>
  \<open>visit\<close>: the \<open>enter\<close> handler, then the handler of the type of the node of the path
  (reading the type of an absent node throws). The result lists the paths the callback
  was called on.
\<close>

definition visit :: "Visitor \<Rightarrow> NodePath \<Rightarrow> error + NodePath list" where
  "visit visitor path =
     (case (case visitorEnter visitor of None \<Rightarrow> Inr [] | Some h \<Rightarrow> h path) of
        Inl e \<Rightarrow> Inl e
      | Inr entered \<Rightarrow>
          (case pathType path of
             None \<Rightarrow> Inl TypeError
           | Some ty \<Rightarrow>
               (case visitorNode visitor ty of
                  None \<Rightarrow> Inr entered
                | Some h \<Rightarrow>
                    (case h path of
                       Inl e \<Rightarrow> Inl e
                     | Inr visited \<Rightarrow> Inr (entered @ visited)))))"

text \<open>One refactoring tried on one path; an error thrown earlier skips everything.\<close>

definition checkRefactoring ::
  "Selection \<Rightarrow> NodePath \<Rightarrow> Refactoring
     \<Rightarrow> error + (string \<times> Refactoring) list \<Rightarrow> error + (string \<times> Refactoring) list" where
  "checkRefactoring sel path refactoring state =
     (case state of
        Inl e \<Rightarrow> Inl e
      | Inr applicableRefactorings \<Rightarrow>
          (case createVisitor refactoring sel of
             Inl e \<Rightarrow> Inl e
           | Inr visitor \<Rightarrow>
               (case visit visitor path of
                  Inl e \<Rightarrow> Inl e
                | Inr visited \<Rightarrow>
                    Inr (fold (onMatch refactoring) visited applicableRefactorings))))"

definition findApplicableRefactorings ::
  "Host \<Rightarrow> Refactoring list \<Rightarrow> NodePath list \<Rightarrow> Selection \<Rightarrow> error + Refactoring list" where
  "findApplicableRefactorings host refactorings paths sel =
     (let refactoringsToCheck =
            filter (\<lambda>r. shouldShowInQuickFix host (commandKey r)) refactorings
      in case fold (\<lambda>path. fold (checkRefactoring sel path) refactoringsToCheck) paths (Inr []) of
           Inl e \<Rightarrow> Inl e
         | Inr applicableRefactorings \<Rightarrow> Inr (map snd applicableRefactorings))"

text \<open>The sparkles that end the title of an action, as bytes.\<close>

definition sparkles :: string where
  "sparkles = [CHR 0xE2, CHR 0x9C, CHR 0xA8]"

definition buildCodeActionFor :: "Refactoring \<Rightarrow> CodeAction" where
  "buildCodeActionFor refactoring =
     \<lparr>actionTitle = message refactoring @ '' '' @ sparkles,
      actionIsPreferred = isPreferred refactoring,
      command = ''abracadabra.'' @ commandKey refactoring,
      actionCommandTitle = commandTitle refactoring\<rparr>"

text \<open>The body of the \<open>try\<close> block, and the provider with its \<open>catch\<close>.\<close>

definition tryProvide :: "Host \<Rightarrow> Refactoring list \<Rightarrow> VSCodeEditor \<Rightarrow> error + CodeAction list" where
  "tryProvide host refactorings editor =
     (case parsedPaths host (editorCode editor) of
        Inl e \<Rightarrow> Inl e
      | Inr paths \<Rightarrow>
          (case findApplicableRefactorings host refactorings paths (editorSelection editor) of
             Inl e \<Rightarrow> Inl e
           | Inr applicable \<Rightarrow> Inr (map buildCodeActionFor applicable)))"

definition provideCodeActions :: "Host \<Rightarrow> Refactoring list \<Rightarrow> string \<Rightarrow> error + CodeAction list" where
  "provideCodeActions host refactorings documentPath =
     (if isNavigatingAnIgnoredFile host documentPath then Inr []
      else case createVSCodeEditor host of
             None \<Rightarrow> Inr []
           | Some editor \<Rightarrow>
               (case tryProvide host refactorings editor of
                  Inl e \<Rightarrow> Inr []
                | Inr actions \<Rightarrow> Inr actions))"

text \<open>
  The entries of the map have distinct keys, and each refactoring stands under its own
  key; an error thrown leaves no map.
\<close>

definition keyed :: "(string \<times> Refactoring) list \<Rightarrow> bool" where
  "keyed m = (distinct (map fst m) \<and> (\<forall>e \<in> set m. commandKey (snd e) = fst e))"

definition keyedState :: "error + (string \<times> Refactoring) list \<Rightarrow> bool" where
  "keyedState st = (case st of Inl e \<Rightarrow> True | Inr m \<Rightarrow> keyed m)"

section \<open>Extract variable: the question about destructuring\<close>

text \<open>
  Modelled from the spec: \<open>extractVariable\<close> is not among the sources, only its tests
  are. Section 4.3 (step 3) and section 6 of the specification say when the editor is
  asked to choose: the extracted node is a member-expression chain with no computed
  link; then exactly two options are presented, \<open>Destructure\<close> first and \<open>Preserve\<close>
  second, with labels showing the resulting code. The labels are those the test
  expects for \<^verbatim>\<open>foo.bar.baz\<close>. No question is asked when a link of the chain is
  computed, nor when the extracted node is no member expression.
\<close>

datatype DestructureStrategy = Destructure | Preserve

datatype Expr =
    IdentifierExpr string
  | StringLiteral string
  | NumericLiteral int
  | MemberExpr Expr Expr bool

record Choice =
  label :: string
  choiceValue :: DestructureStrategy

fun hasComputedLink :: "Expr \<Rightarrow> bool" where
  "hasComputedLink (MemberExpr object property computed') = (computed' \<or> hasComputedLink object)"
| "hasComputedLink e = False"

fun isMemberChain :: "Expr \<Rightarrow> bool" where
  "isMemberChain (MemberExpr object property computed') = True"
| "isMemberChain e = False"

text \<open>The source text of an identifier or of a chain without computed links.\<close>

fun sourceText :: "Expr \<Rightarrow> string" where
  "sourceText (IdentifierExpr n) = n"
| "sourceText (MemberExpr object property computed') = sourceText object @ ''.'' @ sourceText property"
| "sourceText e = []"

definition backquote :: string where
  "backquote = [CHR 0x60]"

definition destructureChoices :: "Expr \<Rightarrow> Expr \<Rightarrow> Choice list" where
  "destructureChoices object property =
     [\<lparr>label = ''Destructure => '' @ backquote @ ''const { '' @ sourceText property @ '' } = ''
                @ sourceText object @ backquote,
       choiceValue = Destructure\<rparr>,
      \<lparr>label = ''Preserve => '' @ backquote @ ''const '' @ sourceText property @ '' = ''
                @ sourceText object @ ''.'' @ sourceText property @ backquote,
       choiceValue = Preserve\<rparr>]"

text \<open>The calls of \<open>askUserChoice\<close> made when the node is extracted: the options of each.\<close>

fun askUserChoiceCalls :: "Expr \<Rightarrow> Choice list list" where
  "askUserChoiceCalls (MemberExpr object property computed') =
     (if hasComputedLink (MemberExpr object property computed') then []
      else [destructureChoices object property])"
| "askUserChoiceCalls e = []"

section \<open>Sample programs\<close>

definition range :: "int \<Rightarrow> int \<Rightarrow> int \<Rightarrow> int \<Rightarrow> SourceLocation" where
  "range l1 c1 l2 c2 =
     \<lparr>locStart = \<lparr>line = l1, column = c1\<rparr>, locEnd = \<lparr>line = l2, column = c2\<rparr>\<rparr>"

definition cursor :: "int \<Rightarrow> int \<Rightarrow> Selection" where
  "cursor l c = \<lparr>start = \<lparr>line = l, column = c\<rparr>, end' = \<lparr>line = l, column = c\<rparr>\<rparr>"

definition mk :: "nodeType \<Rightarrow> nat \<Rightarrow> SourceLocation \<Rightarrow> (string \<times> Node) list \<Rightarrow> Node" where
  "mk ty i l ks = Node ty i (Some l) [] False False ks"

definition ident :: "nat \<Rightarrow> SourceLocation \<Rightarrow> string \<Rightarrow> Node" where
  "ident i l nm = Node Identifier i (Some l) nm False False []"

text \<open>An equality for the samples: two identifiers of the same name.\<close>

definition sameName :: equality where
  "sameName a b =
     (case b of
        None \<Rightarrow> False
      | Some n \<Rightarrow> ntype a = Identifier \<and> ntype n = Identifier \<and> name a = name n)"

text \<open>
  The program
  \<^verbatim>\<open>const foo = bar;\<close>
  \<^verbatim>\<open>log(-foo, { foo }, foo.foo);\<close>
\<close>

definition exDeclaration :: Node where
  "exDeclaration =
     mk VariableDeclaration 2 (range 1 0 1 16)
       [(''declarations'', mk VariableDeclarator 3 (range 1 6 1 15)
           [(''id'', ident 4 (range 1 6 1 9) ''foo''),
            (''init'', ident 5 (range 1 12 1 15) ''bar'')])]"

definition exStatement :: Node where
  "exStatement =
     mk ExpressionStatement 6 (range 2 0 2 28)
       [(''expression'', mk (OtherType ''CallExpression'') 7 (range 2 0 2 27)
           [(''callee'', ident 8 (range 2 0 2 3) ''log''),
            (''arguments'', mk UnaryExpression 9 (range 2 4 2 8)
               [(''argument'', ident 10 (range 2 5 2 8) ''foo'')]),
            (''arguments'', mk (OtherType ''ObjectExpression'') 11 (range 2 10 2 17)
               [(''properties'', Node ObjectProperty 12 (Some (range 2 12 2 15)) [] True False
                   [(''key'', ident 13 (range 2 12 2 15) ''foo''),
                    (''value'', ident 14 (range 2 12 2 15) ''foo'')])]),
            (''arguments'', mk MemberExpression 15 (range 2 19 2 26)
               [(''object'', ident 16 (range 2 19 2 22) ''foo''),
                (''property'', ident 17 (range 2 23 2 26) ''foo'')])])]"

text \<open>The statement \<^verbatim>\<open>foo = 1;\<close> on the second line.\<close>

definition exAssignment :: Node where
  "exAssignment =
     mk ExpressionStatement 20 (range 2 0 2 8)
       [(''expression'', mk AssignmentExpression 21 (range 2 0 2 7)
           [(''left'', ident 22 (range 2 0 2 3) ''foo''),
            (''right'', mk (OtherType ''NumericLiteral'') 23 (range 2 6 2 7) [])])]"

definition exProgramOf :: "Node list \<Rightarrow> Node" where
  "exProgramOf body = mk Program 1 (range 1 0 2 28) (map (Pair ''body'') body)"

definition exFileOf :: "Node list \<Rightarrow> Node" where
  "exFileOf body = mk File 0 (range 1 0 2 28) [(''program'', exProgramOf body)]"

text \<open>The leaf for the declaration of \<open>foo\<close> in a program with the given statements.\<close>

definition exLeafOf :: "Node list \<Rightarrow> InlinableCode" where
  "exLeafOf body =
     InlinableIdentifier (ident 4 (range 1 6 1 9) ''foo'', range 1 6 1 9) (exProgramOf body)
       (fromAST (range 1 12 1 15))"

text \<open>A block holding the declaration of \<open>foo\<close>, as an entry of the ancestors.\<close>

definition exBlockEntry :: ancestor where
  "exBlockEntry =
     \<lparr>node = mk BlockStatement 30 (range 1 0 3 1) [(''body'', exDeclaration)], key = ''body''\<rparr>"


text \<open>
  A reader for the samples: the text of the source lines between the ends of a
  selection that stays on one line.
\<close>

definition readLines :: "string list \<Rightarrow> Selection \<Rightarrow> string" where
  "readLines sourceLines s =
     (if line (start s) = line (end' s) \<and> 1 \<le> line (start s)
         \<and> line (start s) \<le> int (length sourceLines)
      then take (nat (column (end' s) - column (start s)))
             (drop (nat (column (start s))) (sourceLines ! nat (line (start s) - 1)))
      else [])"

definition exLines :: "string list" where
  "exLines = [''const foo = bar;'', ''log(-foo, { foo }, foo.foo);'']"

text \<open>
  The program
  \<^verbatim>\<open>const foo = 1;\<close>
  \<^verbatim>\<open>log(bar[foo], foo);\<close>
  with a computed access whose operand is the declared identifier.
\<close>

definition exComputedLines :: "string list" where
  "exComputedLines = [''const foo = 1;'', ''log(bar[foo], foo);'']"

definition exNumberDeclaration :: Node where
  "exNumberDeclaration =
     mk VariableDeclaration 2 (range 1 0 1 14)
       [(''declarations'', mk VariableDeclarator 3 (range 1 6 1 13)
           [(''id'', ident 4 (range 1 6 1 9) ''foo''),
            (''init'', mk (OtherType ''NumericLiteral'') 5 (range 1 12 1 13) [])])]"

definition exComputedStatement :: Node where
  "exComputedStatement =
     mk ExpressionStatement 6 (range 2 0 2 19)
       [(''expression'', mk (OtherType ''CallExpression'') 7 (range 2 0 2 18)
           [(''callee'', ident 8 (range 2 0 2 3) ''log''),
            (''arguments'', Node MemberExpression 9 (Some (range 2 4 2 12)) [] False True
               [(''object'', ident 10 (range 2 4 2 7) ''bar''),
                (''property'', ident 11 (range 2 8 2 11) ''foo'')]),
            (''arguments'', ident 12 (range 2 14 2 17) ''foo'')])]"

definition exComputedFile :: Node where
  "exComputedFile = exFileOf [exNumberDeclaration, exComputedStatement]"

definition exComputedLeaf :: InlinableCode where
  "exComputedLeaf =
     InlinableIdentifier (ident 4 (range 1 6 1 9) ''foo'', range 1 6 1 9)
       (exProgramOf [exNumberDeclaration, exComputedStatement]) (fromAST (range 1 12 1 13))"

text \<open>
  The program
  \<^verbatim>\<open>const a = 1, b = 2;\<close>
  \<^verbatim>\<open>log(a, b);\<close>
\<close>

definition exPairLines :: "string list" where
  "exPairLines = [''const a = 1, b = 2;'', ''log(a, b);'']"

definition exPairDeclaration :: Node where
  "exPairDeclaration =
     mk VariableDeclaration 2 (range 1 0 1 19)
       [(''declarations'', mk VariableDeclarator 3 (range 1 6 1 11)
           [(''id'', ident 4 (range 1 6 1 7) ''a''),
            (''init'', mk (OtherType ''NumericLiteral'') 5 (range 1 10 1 11) [])]),
        (''declarations'', mk VariableDeclarator 6 (range 1 13 1 18)
           [(''id'', ident 7 (range 1 13 1 14) ''b''),
            (''init'', mk (OtherType ''NumericLiteral'') 8 (range 1 17 1 18) [])])]"

definition exPairStatement :: Node where
  "exPairStatement =
     mk ExpressionStatement 9 (range 2 0 2 10)
       [(''expression'', mk (OtherType ''CallExpression'') 10 (range 2 0 2 9)
           [(''callee'', ident 11 (range 2 0 2 3) ''log''),
            (''arguments'', ident 12 (range 2 4 2 5) ''a''),
            (''arguments'', ident 13 (range 2 7 2 8) ''b'')])]"

definition exPairFile :: Node where
  "exPairFile = exFileOf [exPairDeclaration, exPairStatement]"

text \<open>
  The paths from the program down to the identifier \<open>log\<close> of the sample statement.
\<close>

definition exProgramPath :: NodePath where
  "exProgramPath = NodePath (Some Program) None"

definition exStatementPath :: NodePath where
  "exStatementPath = NodePath (Some ExpressionStatement) (Some exProgramPath)"

definition exCalleePath :: NodePath where
  "exCalleePath =
     NodePath (Some Identifier)
       (Some (NodePath (Some (OtherType ''CallExpression'')) (Some exStatementPath)))"

text \<open>
  The program
  \<^verbatim>\<open>const a = 1, b = function () { var c = 2, d = 3; };\<close>
  with a declaration of two declarators inside the second declarator of another.
\<close>

definition exInner :: Node where
  "exInner =
     mk VariableDeclaration 10 (range 1 31 1 48)
       [(''declarations'', mk VariableDeclarator 11 (range 1 35 1 40)
           [(''id'', ident 12 (range 1 35 1 36) ''c''),
            (''init'', mk (OtherType ''NumericLiteral'') 13 (range 1 39 1 40) [])]),
        (''declarations'', mk VariableDeclarator 14 (range 1 42 1 47)
           [(''id'', ident 15 (range 1 42 1 43) ''d''),
            (''init'', mk (OtherType ''NumericLiteral'') 16 (range 1 46 1 47) [])])]"

definition exOuter :: Node where
  "exOuter =
     mk VariableDeclaration 2 (range 1 0 1 53)
       [(''declarations'', mk VariableDeclarator 3 (range 1 6 1 11)
           [(''id'', ident 4 (range 1 6 1 7) ''a''),
            (''init'', mk (OtherType ''NumericLiteral'') 5 (range 1 10 1 11) [])]),
        (''declarations'', mk VariableDeclarator 6 (range 1 13 1 52)
           [(''id'', ident 7 (range 1 13 1 14) ''b''),
            (''init'', mk (OtherType ''FunctionExpression'') 8 (range 1 17 1 52)
               [(''body'', mk BlockStatement 9 (range 1 29 1 52) [(''body'', exInner)])])])]"

definition exNested :: Node where
  "exNested =
     mk File 0 (range 1 0 1 53) [(''program'', mk Program 1 (range 1 0 1 53) [(''body'', exOuter)])]"

text \<open>
  The program \<^verbatim>\<open>export const foo = 1;\<close> as a tree whose variable declaration has no
  range of its own.
\<close>

definition exBare :: Node where
  "exBare =
     Node VariableDeclaration 3 None [] False False
       [(''declarations'', mk VariableDeclarator 4 (range 1 13 1 20)
           [(''id'', ident 5 (range 1 13 1 16) ''foo''),
            (''init'', mk (OtherType ''NumericLiteral'') 6 (range 1 19 1 20) [])])]"

definition exExport :: Node where
  "exExport = mk ExportNamedDeclaration 2 (range 1 0 1 21) [(''declaration'', exBare)]"

definition exExportFile :: Node where
  "exExportFile =
     mk File 0 (range 1 0 1 21) [(''program'', mk Program 1 (range 1 0 1 21) [(''body'', exExport)])]"

text \<open>
  The declaration without a range directly in a program, under no export.
\<close>

definition exBareFile :: Node where
  "exBareFile =
     mk File 0 (range 1 0 1 21) [(''program'', mk Program 1 (range 1 0 1 21) [(''body'', exBare)])]"

text \<open>
  The two refactorings configured in the sources, \<open>flipIfElse\<close> and
  \<open>mergeWithPreviousIfStatement\<close>, over sample visitors: the first matches every if
  statement, the second has an \<open>enter\<close> handler that never matches.
\<close>

definition exFlipIfElse :: Refactoring where
  "exFlipIfElse =
     \<lparr>commandKey = ''flipIfElse'', commandTitle = ''Flip If/Else'',
      message = ''Flip if/else'', isPreferred = Some True, updateMessage = None,
      createVisitor = (\<lambda>sel. Inr \<lparr>visitorEnter = None,
         visitorNode = (\<lambda>ty. if ty = IfStatement then Some (\<lambda>p. Inr [p]) else None)\<rparr>)\<rparr>"

definition exMerge :: Refactoring where
  "exMerge =
     \<lparr>commandKey = ''mergeWithPreviousIfStatement'',
      commandTitle = ''Merge With Previous If Statement'',
      message = ''Merge with previous if'', isPreferred = Some True, updateMessage = None,
      createVisitor = (\<lambda>sel. Inr \<lparr>visitorEnter = Some (\<lambda>p. Inr []),
         visitorNode = (\<lambda>ty. None)\<rparr>)\<rparr>"

text \<open>A host whose editor holds a code with two if statements in its program.\<close>

definition exIfPaths :: "NodePath list" where
  "exIfPaths =
     [exProgramPath, NodePath (Some IfStatement) (Some exProgramPath),
      NodePath (Some IfStatement) (Some exProgramPath)]"

definition exHost :: Host where
  "exHost =
     \<lparr>getIgnoredFolders = [''node_modules''],
      shouldShowInQuickFix = (\<lambda>k. True),
      createVSCodeEditor = Some \<lparr>editorCode = ''if (a) {} if (b) {}'', editorSelection = cursor 1 0\<rparr>,
      parsedPaths = (\<lambda>c. if c = ''if (a) {} if (b) {}'' then Inr exIfPaths
                           else Inl (OtherError ''SyntaxError''))\<rparr>"

text \<open>The expressions \<^verbatim>\<open>foo.bar.baz\<close> and \<^verbatim>\<open>foo.bar.children[0]\<close> of the tests.\<close>

definition exChain :: Expr where
  "exChain =
     MemberExpr (MemberExpr (IdentifierExpr ''foo'') (IdentifierExpr ''bar'') False)
       (IdentifierExpr ''baz'') False"

definition exComputed :: Expr where
  "exComputed =
     MemberExpr
       (MemberExpr (MemberExpr (IdentifierExpr ''foo'') (IdentifierExpr ''bar'') False)
          (IdentifierExpr ''children'') False)
       (NumericLiteral 0) True"

section \<open>Scope paths: results\<close>

lemma scopeCallback_statementLike: "scopeCallback p = statementLike p"
proof (cases "pathType p")
  case None
  then show ?thesis
    by (simp add: scopeCallback_def statementLike_def isType_def isExportDeclaration_def)
next
  case (Some ty)
  then show ?thesis
    by (cases "parentPath p")
       (auto simp: scopeCallback_def statementLike_def isType_def isExportDeclaration_def
          exportKinds_def parentKind_def split: option.splits)
qed

lemma findParent_find: "findParent callback path = List.find callback (ancestry path)"
  by (induction callback path rule: findParent.induct) simp_all

lemma find_first_index:
  "List.find P xs = Some a \<Longrightarrow>
     \<exists>i < length xs. xs ! i = a \<and> P a \<and> (\<forall>j < i. \<not> P (xs ! j))"
  by (auto simp: find_Some_iff)

text \<open>
  C7. \<open>findScopePath\<close> returns the nearest proper ancestor whose kind is in the fixed
  set of statement-like kinds (no nearer ancestor is of such a kind), and it returns
  nothing exactly when no ancestor is of such a kind.
\<close>

theorem findScopePath_nearest_statementLike:
  "(findScopePath path = None \<longleftrightarrow> (\<forall>a \<in> set (ancestry path). \<not> statementLike a))
   \<and> (\<forall>a. findScopePath path = Some a \<longrightarrow>
         (\<exists>i < length (ancestry path). ancestry path ! i = a \<and> statementLike a
            \<and> (\<forall>j < i. \<not> statementLike (ancestry path ! j))))"
proof -
  have cb: "scopeCallback = statementLike"
    by (rule ext) (rule scopeCallback_statementLike)
  have eq: "findScopePath path = List.find statementLike (ancestry path)"
    by (simp add: findScopePath_def findParent_find cb)
  show ?thesis
    unfolding eq using find_first_index [of statementLike "ancestry path"]
    by (auto simp: find_None_iff)
qed

theorem findScopePath_nearest_statementLike_witness:
  "findScopePath exCalleePath = Some exStatementPath \<and> statementLike exStatementPath
   \<and> findScopePath exProgramPath = None"
proof -
  have found: "findScopePath exCalleePath = Some exStatementPath"
    by code_simp
  have top: "\<forall>a \<in> set (ancestry exProgramPath). \<not> statementLike a"
    by code_simp
  show ?thesis
    using findScopePath_nearest_statementLike [of exCalleePath] found
      findScopePath_nearest_statementLike [of exProgramPath] top
    by blast
qed

section \<open>Shadowing: results\<close>

text \<open>
  C3. An identifier is shadowed with respect to the ancestors exactly when some
  ancestor node is a function declaration with a parameter structurally equal to it,
  or a block statement whose body holds a variable declaration with a declarator whose
  identifier is structurally equal to it and is another node than the identifier
  itself. In particular, ancestors that are no function declarations and whose
  declarators all hold the identifier itself do not shadow it.
\<close>

theorem isShadowIn_iff:
  "(isShadowIn areEqual id' ancestors \<longleftrightarrow>
     (\<exists>a \<in> set ancestors.
        (ntype (node a) = FunctionDeclaration
           \<and> (\<exists>param \<in> set (children ''params'' (node a)). areEqual id' (Some param)))
      \<or> (ntype (node a) = BlockStatement
           \<and> (\<exists>c \<in> set (children ''body'' (node a)). ntype c = VariableDeclaration
                 \<and> (\<exists>d \<in> set (children ''declarations'' c). ntype d = VariableDeclarator
                       \<and> areEqual id' (child ''id'' d) \<and> \<not> sameNode (child ''id'' d) id')))))
   \<and> ((\<forall>a \<in> set ancestors. ntype (node a) \<noteq> FunctionDeclaration
           \<and> (\<forall>c \<in> set (children ''body'' (node a)).
                 \<forall>d \<in> set (children ''declarations'' c). sameNode (child ''id'' d) id'))
        \<longrightarrow> \<not> isShadowIn areEqual id' ancestors)"
  unfolding isShadowIn_def isDeclaredInFunction_def isDeclaredInScope_def list_ex_iff
  by blast

theorem isShadowIn_iff_witness:
  "\<not> isShadowIn sameName (ident 4 (range 1 6 1 9) ''foo'') [exBlockEntry]
   \<and> isShadowIn sameName (ident 10 (range 2 5 2 8) ''foo'') [exBlockEntry]"
proof -
  have own: "\<forall>a \<in> set [exBlockEntry]. ntype (node a) \<noteq> FunctionDeclaration
           \<and> (\<forall>c \<in> set (children ''body'' (node a)).
                 \<forall>d \<in> set (children ''declarations'' c).
                   sameNode (child ''id'' d) (ident 4 (range 1 6 1 9) ''foo''))"
    by code_simp
  have other: "\<exists>a \<in> set [exBlockEntry].
        (ntype (node a) = FunctionDeclaration
           \<and> (\<exists>param \<in> set (children ''params'' (node a)).
                 sameName (ident 10 (range 2 5 2 8) ''foo'') (Some param)))
      \<or> (ntype (node a) = BlockStatement
           \<and> (\<exists>c \<in> set (children ''body'' (node a)). ntype c = VariableDeclaration
                 \<and> (\<exists>d \<in> set (children ''declarations'' c). ntype d = VariableDeclarator
                       \<and> sameName (ident 10 (range 2 5 2 8) ''foo'') (child ''id'' d)
                       \<and> \<not> sameNode (child ''id'' d) (ident 10 (range 2 5 2 8) ''foo''))))"
    by code_simp
  show ?thesis
    using isShadowIn_iff [of sameName "ident 4 (range 1 6 1 9) ''foo''" "[exBlockEntry]"] own
      isShadowIn_iff [of sameName "ident 10 (range 2 5 2 8) ''foo''" "[exBlockEntry]"] other
    by blast
qed

section \<open>Inline variable: results\<close>

subsection \<open>The walks over the scope\<close>

lemma visits_unfold: "visits n ancestors = (n, ancestors) # visitsKids n (kids n) ancestors"
  by (cases n) simp

lemma visits_depth:
  "\<forall>v \<in> set (visits n ancestors). length ancestors \<le> length (snd v)"
  "\<forall>v \<in> set (visitsKids p ks ancestors). length ancestors < length (snd v)"
proof (induction n ancestors and p ks ancestors rule: visits_visitsKids.induct)
  case (1 ty i l nm sh cp ks ancestors)
  then show ?case by fastforce
next
  case (2 parent ancestors)
  then show ?case by simp
next
  case (3 parent k c rest ancestors)
  then show ?case by fastforce
qed

lemma visitsKids_nonempty: "v \<in> set (visitsKids p ks ancestors) \<Longrightarrow> snd v \<noteq> []"
  using visits_depth(2) [of p ks ancestors] by fastforce

lemma replaceEnter_step:
  assumes "ancestors \<noteq> []"
  shows "replaceEnter areEqual id' n ancestors (Inr acc) =
           Inr (acc @ (case siteAt areEqual id' (n, ancestors) of None \<Rightarrow> [] | Some s \<Rightarrow> [s]))"
proof -
  obtain parent where p: "last' ancestors = Some parent"
    using assms by (auto simp: last'_def)
  show ?thesis
    by (cases "loc n")
       (auto simp: replaceEnter_def siteAt_def isCollected_def isDeclarationSite_def
          holdsAsKey_def holdsAsProperty_def isFunctionDeclarationEntry_def p)
qed

lemma fold_replaceEnter:
  assumes "\<forall>v \<in> set vs. snd v \<noteq> []"
  shows "fold (\<lambda>(m, a). replaceEnter areEqual id' m a) vs (Inr acc) =
           Inr (acc @ List.map_filter (siteAt areEqual id') vs)"
  using assms
proof (induction vs arbitrary: acc)
  case Nil
  then show ?case by (simp add: List.map_filter_simps)
next
  case (Cons v vs)
  obtain n a where v: "v = (n, a)" by (cases v)
  with Cons.prems have "a \<noteq> []" by simp
  then show ?case
    using Cons.IH [of "acc @ (case siteAt areEqual id' (n, a) of None \<Rightarrow> [] | Some s \<Rightarrow> [s])"] Cons.prems
    by (simp add: v replaceEnter_step List.map_filter_simps split: option.splits)
qed

lemma fold_replaceEnter_thrown:
  "fold (\<lambda>(m, a). replaceEnter areEqual id' m a) vs (Inl e) = Inl e"
  by (induction vs) (auto simp: replaceEnter_def)

text \<open>The root of the walk has no parent: handling it either skips it or throws.\<close>

lemma replaceEnter_root:
  "replaceEnter areEqual id' n [] (Inr acc) =
     (if collectedLocAt areEqual id' (n, []) = None then Inr acc else Inl TypeError)"
  by (auto simp: replaceEnter_def collectedLocAt_def isCollected_def isDeclarationSite_def
        holdsAsKey_def holdsAsProperty_def isFunctionDeclarationEntry_def
        isShadowIn_def last'_def split: option.splits)

lemma siteAt_root: "siteAt areEqual id' (n, []) = None"
  by (simp add: siteAt_def last'_def split: option.splits)

lemma identifiersToReplace_leaf:
  "identifiersToReplace areEqual (InlinableIdentifier id' scope sel) =
     (if collectedLocAt areEqual id' (scope, []) = None
      then Inr (List.map_filter (siteAt areEqual id') (visits scope []))
      else Inl TypeError)"
proof -
  have ne: "\<forall>v \<in> set (visitsKids scope (kids scope) []). snd v \<noteq> []"
    using visitsKids_nonempty by blast
  have "traverse scope (replaceEnter areEqual id') (Inr []) =
          fold (\<lambda>(m, a). replaceEnter areEqual id' m a) (visitsKids scope (kids scope) [])
            (replaceEnter areEqual id' scope [] (Inr []))"
    by (simp add: traverse_def visits_unfold [of scope])
  moreover have "List.map_filter (siteAt areEqual id') (visits scope []) =
      List.map_filter (siteAt areEqual id') (visitsKids scope (kids scope) [])"
    by (simp add: visits_unfold [of scope] List.map_filter_simps siteAt_root)
  ultimately show ?thesis
    using fold_replaceEnter [OF ne, of areEqual id' "[]"]
    by (simp add: replaceEnter_root fold_replaceEnter_thrown)
qed

lemma identifiersToReplace_sites:
  "identifiersToReplace areEqual c =
     (if collectedLocAt areEqual (declaredId c) (definingScope c, []) = None
      then Inr (List.map_filter (siteAt areEqual (declaredId c)) (visits (definingScope c) []))
      else Inl TypeError)"
proof (induction c)
  case (InlinableIdentifier id' scope sel)
  show ?case
    using identifiersToReplace_leaf [of areEqual id' scope sel] by simp
next
  case (InlinableDeclarations c locs)
  then show ?case by simp
qed

lemma fold_flag:
  "fold (\<lambda>(m, a) result. if P m then True else result) vs r = (r \<or> (\<exists>v \<in> set vs. P (fst v)))"
  by (induction vs arbitrary: r) auto

lemma isRedeclared_isReassigned: "isRedeclared areEqual c = isReassigned areEqual c"
proof (induction c)
  case (InlinableIdentifier id' scope sel)
  have "(\<lambda>(m::Node, a::ancestor list) result. if ntype m \<noteq> AssignmentExpression then result
          else if \<not> areEqual (fst id') (child ''left'' m) then result else True)
        = (\<lambda>(m, a) result. if ntype m = AssignmentExpression \<and> areEqual (fst id') (child ''left'' m)
             then True else result)"
    by (auto simp: fun_eq_iff)
  then show ?case
    by (simp add: traverse_def fold_flag isReassigned_def list_ex_iff)
next
  case (InlinableDeclarations c locs)
  then show ?case by (simp add: isReassigned_def)
qed

lemma isExported_names:
  "isExported findExportedIdNames c =
     (name (fst (declaredId c)) \<in> set (findExportedIdNames (definingScope c)))"
  by (induction c) simp_all

lemma map_map_filter: "map f (List.map_filter g xs) = List.map_filter (map_option f \<circ> g) xs"
  by (induction xs) (auto simp: List.map_filter_simps split: option.splits)

lemma map_filter_cong':
  "(\<And>x. x \<in> set xs \<Longrightarrow> f x = g x) \<Longrightarrow> List.map_filter f xs = List.map_filter g xs"
  by (induction xs) (auto simp: List.map_filter_simps split: option.splits)

lemma set_map_filter: "set (List.map_filter f xs) = {y. \<exists>x \<in> set xs. f x = Some y}"
  by (induction xs) (auto simp: List.map_filter_simps split: option.splits)

lemma visits_root_or_below:
  "v \<in> set (visits n []) \<Longrightarrow> v = (n, []) \<or> snd v \<noteq> []"
  using visitsKids_nonempty [of v n "kids n" "[]"] by (auto simp: visits_unfold [of n])

lemma siteLoc_siteAt:
  assumes "collectedLocAt areEqual id' (scope, []) = None" and "v \<in> set (visits scope [])"
  shows "map_option siteLoc (siteAt areEqual id' v) = collectedLocAt areEqual id' v"
proof -
  consider "v = (scope, [])" | "snd v \<noteq> []"
    using visits_root_or_below [OF assms(2)] by blast
  then show ?thesis
  proof cases
    case 1
    then show ?thesis using assms(1) by (simp add: siteAt_root)
  next
    case 2
    then obtain parent where "last' (snd v) = Some parent"
      by (auto simp: last'_def)
    then show ?thesis
      by (auto simp: siteAt_def collectedLocAt_def split: option.splits)
  qed
qed

lemma replacementCode_siteAt:
  "replacementCode
     \<lparr>siteLoc = l, isInUnaryExpression = (ntype p = UnaryExpression),
      shorthandKey = shorthandKeyOf p n\<rparr> inlinedCode = replacementFor p n inlinedCode"
  by (simp add: replacementCode_def replacementFor_def shorthandKeyOf_def)

lemma edit_siteAt:
  "map_option (\<lambda>site. \<lparr>code = replacementCode site inlinedCode,
                        editSelection = fromAST (siteLoc site)\<rparr>) (siteAt areEqual id' v)
     = editAt areEqual id' inlinedCode v"
  by (simp add: siteAt_def editAt_def replacementCode_siteAt split: option.splits)

subsection \<open>The search for the declaration\<close>

lemma overwrite_append: "overwrite (overwrite r xs) ys = overwrite r (xs @ ys)"
  by (simp add: overwrite_def)

lemma overwrite_Nil: "overwrite r [] = r"
  by (simp add: overwrite_def)

lemma fold_assign:
  "fold (\<lambda>x. assign (f x)) xs r = overwrite r (List.map_filter f xs)"
proof (induction xs arbitrary: r)
  case Nil
  then show ?case by (simp add: overwrite_def List.map_filter_simps)
next
  case (Cons x xs)
  have "fold (\<lambda>x. assign (f x)) (x # xs) r = overwrite (assign (f x) r) (List.map_filter f xs)"
    by (simp add: Cons.IH)
  also have "\<dots> = overwrite r (List.map_filter f (x # xs))"
    by (cases "f x") (simp_all add: assign_def overwrite_def List.map_filter_simps)
  finally show ?case .
qed

lemma enter_overwrite: "enter sel parent n r = overwrite r (assignedAt sel parent n)"
  by (simp add: enter_def assignedAt_def Let_def fold_assign overwrite_def assign_def
        split: option.splits)

lemma fold_walk:
  assumes "\<And>k c r. (k, c) \<in> set ks \<Longrightarrow> w c r = overwrite r (a c)"
  shows "fold (\<lambda>(k, c). w c) ks r = overwrite r (concat (map (\<lambda>(k, c). a c) ks))"
  using assms
proof (induction ks arbitrary: r)
  case Nil
  then show ?case by (simp add: overwrite_def)
next
  case (Cons kc ks)
  obtain k c where kc: "kc = (k, c)" by (cases kc)
  have tl: "w c' r' = overwrite r' (a c')" if "(k', c') \<in> set ks" for k' c' r'
    using that Cons.prems [of k' c' r'] by simp
  have "fold (\<lambda>(k, c). w c) ks (w c r) = overwrite (w c r) (concat (map (\<lambda>(k, c). a c) ks))"
    by (rule Cons.IH) (rule tl)
  moreover have "w c r = overwrite r (a c)"
    using Cons.prems [of k c r] by (simp add: kc)
  ultimately show ?case
    by (simp add: kc overwrite_append)
qed

lemma walk_overwrite: "walk sel parent n r = overwrite r (assignments sel parent n)"
proof (induction sel parent n r rule: walk.induct)
  case (1 sel parent ty i l nm sh cp ks result)
  let ?n = "inheritLoc parent (Node ty i l nm sh cp ks)"
  have "fold (\<lambda>(k, c). walk sel ?n c) ks (enter sel parent ?n result) =
          overwrite (enter sel parent ?n result)
            (concat (map (\<lambda>(k, c). assignments sel ?n c) ks))"
    by (rule fold_walk) (use "1.IH" in auto)
  then show ?case
    by (simp add: Let_def enter_overwrite overwrite_append)
qed

lemma findInlinableCode_overwrite:
  "findInlinableCode ast sel = overwrite None (allAssignments ast sel)"
  unfolding findInlinableCode_def allAssignments_def
  by (rule fold_walk) (rule walk_overwrite)

lemma assignedAt_outside:
  "\<not> (ntype n = VariableDeclaration \<and> isInsideNode sel n) \<Longrightarrow> assignedAt sel parent n = []"
  by (auto simp: assignedAt_def)

lemma assignments_outside:
  "\<forall>m \<in> set (enteredNodes parent n). \<not> (ntype m = VariableDeclaration \<and> isInsideNode sel m)
     \<Longrightarrow> assignments sel parent n = []"
proof (induction sel parent n rule: assignments.induct)
  case (1 sel parent ty i l nm sh cp ks)
  let ?n = "inheritLoc parent (Node ty i l nm sh cp ks)"
  have here: "assignedAt sel parent ?n = []"
    using "1.prems" by (intro assignedAt_outside) (simp add: Let_def)
  have below: "assignments sel ?n c = []" if "(k, c) \<in> set ks" for k c
    using that "1.prems" by (intro "1.IH" [of ?n "(k, c)" k c]) (auto simp: Let_def)
  have "concat (map (\<lambda>(k, c). assignments sel ?n c) ks) = []"
    using below by auto
  with here show ?case by (simp add: Let_def)
qed

lemma findInlinableCode_outside:
  assumes "\<forall>m \<in> set (allEntered ast). \<not> (ntype m = VariableDeclaration \<and> isInsideNode sel m)"
  shows "findInlinableCode ast sel = None"
proof -
  have "assignments sel ast c = []" if "(k, c) \<in> set (kids ast)" for k c
    using that assms by (intro assignments_outside) (auto simp: allEntered_def)
  then have "allAssignments ast sel = []"
    by (auto simp: allAssignments_def)
  then show ?thesis
    by (simp add: findInlinableCode_overwrite overwrite_def)
qed

lemma assignedAt_cases:
  assumes "c \<in> set (assignedAt sel parent n)"
  shows "ntype n = VariableDeclaration \<and> isInsideNode sel n
         \<and> (if length (selectableDeclarators n) = 1
            then inlinableIdentifier parent (fst (selectableDeclarators n ! 0)) = Some c
            else \<exists>index < length (selectableDeclarators n).
                   inlinableDeclarations sel parent (selectableDeclarators n) index = Some c)"
proof -
  from assms have v: "ntype n = VariableDeclaration" and i: "isInsideNode sel n"
    by (auto simp: assignedAt_def split: if_splits)
  show ?thesis
  proof (cases "length (selectableDeclarators n) = 1")
    case True
    with assms v i show ?thesis
      by (simp add: assignedAt_def Let_def split: option.splits)
  next
    case False
    with assms v i have "c \<in> set (List.map_filter
        (inlinableDeclarations sel parent (selectableDeclarators n))
        [0 ..< length (selectableDeclarators n)])"
      by (simp add: assignedAt_def Let_def)
    then have "\<exists>index < length (selectableDeclarators n).
                   inlinableDeclarations sel parent (selectableDeclarators n) index = Some c"
      unfolding set_map_filter by auto
    with v i False show ?thesis by simp
  qed
qed

lemma overwrite_None: "overwrite None ws = last' ws"
  by (simp add: overwrite_def last'_def last_conv_nth)

lemma found_last: "findInlinableCode ast sel = Some c \<longleftrightarrow> last' (allAssignments ast sel) = Some c"
  by (simp add: findInlinableCode_overwrite overwrite_None)

lemma concat_map_concat:
  "concat (map f (concat xss)) = concat (map (\<lambda>xs. concat (map f xs)) xss)"
  by (induction xss) simp_all

lemma assignments_pairs:
  "assignments sel parent n = concat (map (\<lambda>(p, m). assignedAt sel p m) (enteredPairs parent n))"
proof (induction sel parent n rule: assignments.induct)
  case (1 sel parent ty i l nm sh cp ks)
  let ?n = "inheritLoc parent (Node ty i l nm sh cp ks)"
  have eq: "map (\<lambda>(k, c). assignments sel ?n c) ks =
        map (\<lambda>(k, c). concat (map (\<lambda>(p, m). assignedAt sel p m) (enteredPairs ?n c))) ks"
    using "1.IH" by (intro map_cong) auto
  have "concat (map (\<lambda>(k, c). assignments sel ?n c) ks) =
        concat (map (\<lambda>(k, c). concat (map (\<lambda>(p, m). assignedAt sel p m) (enteredPairs ?n c))) ks)"
    by (simp only: eq)
  also have "\<dots> = concat (map (\<lambda>(p, m). assignedAt sel p m)
          (concat (map (\<lambda>(k, c). enteredPairs ?n c) ks)))"
    by (simp add: concat_map_concat comp_def case_prod_unfold)
  finally show ?case
    by (simp add: Let_def)
qed

lemma allAssignments_pairs:
  "allAssignments ast sel = concat (map (\<lambda>(p, m). assignedAt sel p m) (allEnteredPairs ast))"
  unfolding allAssignments_def allEnteredPairs_def concat_map_concat
  by (simp add: assignments_pairs comp_def case_prod_unfold)

lemma kids_inheritLoc: "kids (inheritLoc parent n) = kids n"
  by (simp add: inheritLoc_def setLoc_def)

lemma enteredPairs_child:
  "(k0, m) \<in> set (kids parent) \<Longrightarrow> pn \<in> set (enteredPairs parent m) \<Longrightarrow>
     \<exists>k raw. (k, raw) \<in> set (kids (fst pn)) \<and> snd pn = inheritLoc (fst pn) raw"
proof (induction parent m arbitrary: k0 rule: enteredPairs.induct)
  case (1 parent ty i l nm sh cp ks)
  let ?m = "Node ty i l nm sh cp ks"
  let ?n = "inheritLoc parent ?m"
  from "1.prems"(2) consider "pn = (parent, ?n)"
    | k c where "(k, c) \<in> set ks" and "pn \<in> set (enteredPairs ?n c)"
    by (auto simp: Let_def)
  then show ?case
  proof cases
    case 1
    with "1.prems"(1) show ?thesis by auto
  next
    case 2
    have "(k, c) \<in> set (kids ?n)"
      using 2(1) by (simp add: kids_inheritLoc)
    from "1.IH" [OF refl 2(1) refl this 2(2)] show ?thesis .
  qed
qed

lemma allEnteredPairs_child:
  assumes "pn \<in> set (allEnteredPairs ast)"
  shows "\<exists>k raw. (k, raw) \<in> set (kids (fst pn)) \<and> snd pn = inheritLoc (fst pn) raw"
proof -
  from assms obtain k c where "(k, c) \<in> set (kids ast)" and "pn \<in> set (enteredPairs ast c)"
    by (auto simp: allEnteredPairs_def)
  then show ?thesis by (rule enteredPairs_child)
qed

lemma assigned_pair:
  assumes "c \<in> set (allAssignments ast sel)"
  shows "\<exists>p n. (p, n) \<in> set (allEnteredPairs ast) \<and> c \<in> set (assignedAt sel p n)"
  using assms by (auto simp: allAssignments_pairs)

lemma found_assigned:
  assumes "findInlinableCode ast sel = Some c"
  shows "c \<in> set (allAssignments ast sel)"
proof -
  from assms have "allAssignments ast sel \<noteq> []" and "c = last (allAssignments ast sel)"
    by (auto simp: findInlinableCode_overwrite overwrite_def split: if_splits)
  then show ?thesis by simp
qed

text \<open>
  C8. \<open>findInlinableCode\<close> returns the last value its handler assigns over the nodes
  the traversal enters, each taken with the parent it is entered below. Every entered
  node is a child of that parent; when the parent is a named export and the child has
  no range of its own, the handler sees the child with the range of the export, so the
  selection is inside it exactly when it is inside the export; every other node is
  entered as it is.
\<close>

theorem findInlinableCode_export_range:
  "findInlinableCode ast sel =
     last' (concat (map (\<lambda>(p, n). assignedAt sel p n) (allEnteredPairs ast)))
   \<and> (\<forall>pn \<in> set (allEnteredPairs ast). \<exists>k raw. (k, raw) \<in> set (kids (fst pn))
          \<and> (if ntype (fst pn) = ExportNamedDeclaration \<and> loc raw = None
              then snd pn = setLoc (loc (fst pn)) raw \<and> loc (snd pn) = loc (fst pn)
                   \<and> isInsideNode sel (snd pn) = isInsideNode sel (fst pn)
              else snd pn = raw))"
proof
  show "findInlinableCode ast sel =
     last' (concat (map (\<lambda>(p, n). assignedAt sel p n) (allEnteredPairs ast)))"
    by (simp add: findInlinableCode_overwrite overwrite_None allAssignments_pairs)
next
  show "\<forall>pn \<in> set (allEnteredPairs ast). \<exists>k raw. (k, raw) \<in> set (kids (fst pn))
          \<and> (if ntype (fst pn) = ExportNamedDeclaration \<and> loc raw = None
              then snd pn = setLoc (loc (fst pn)) raw \<and> loc (snd pn) = loc (fst pn)
                   \<and> isInsideNode sel (snd pn) = isInsideNode sel (fst pn)
              else snd pn = raw)"
  proof
    fix pn assume "pn \<in> set (allEnteredPairs ast)"
    from allEnteredPairs_child [OF this] obtain k raw
      where "(k, raw) \<in> set (kids (fst pn))" and "snd pn = inheritLoc (fst pn) raw"
      by blast
    then show "\<exists>k raw. (k, raw) \<in> set (kids (fst pn))
          \<and> (if ntype (fst pn) = ExportNamedDeclaration \<and> loc raw = None
              then snd pn = setLoc (loc (fst pn)) raw \<and> loc (snd pn) = loc (fst pn)
                   \<and> isInsideNode sel (snd pn) = isInsideNode sel (fst pn)
              else snd pn = raw)"
      by (intro exI [of _ k] exI [of _ raw])
         (simp add: inheritLoc_def isSelectableNode_def setLoc_def isInsideNode_def)
  qed
qed

theorem findInlinableCode_export_range_witness:
  "(exExport, setLoc (Some (range 1 0 1 21)) exBare) \<in> set (allEnteredPairs exExportFile)
   \<and> findInlinableCode exExportFile (cursor 1 14) =
       Some (InlinableIdentifier (ident 5 (range 1 13 1 16) ''foo'', range 1 13 1 16)
               (mk ExportNamedDeclaration 2 (range 1 0 1 21)
                  [(''declaration'', setLoc (Some (range 1 0 1 21)) exBare)])
               (fromAST (range 1 19 1 20)))
   \<and> findInlinableCode exBareFile (cursor 1 14) = None"
proof -
  have pair: "(exExport, setLoc (Some (range 1 0 1 21)) exBare) \<in> set (allEnteredPairs exExportFile)"
    by code_simp
  have last1: "last' (concat (map (\<lambda>(p, n). assignedAt (cursor 1 14) p n)
                  (allEnteredPairs exExportFile))) =
       Some (InlinableIdentifier (ident 5 (range 1 13 1 16) ''foo'', range 1 13 1 16)
               (mk ExportNamedDeclaration 2 (range 1 0 1 21)
                  [(''declaration'', setLoc (Some (range 1 0 1 21)) exBare)])
               (fromAST (range 1 19 1 20)))"
    by code_simp
  have last2: "last' (concat (map (\<lambda>(p, n). assignedAt (cursor 1 14) p n)
                  (allEnteredPairs exBareFile))) = None"
    by code_simp
  show ?thesis
    using findInlinableCode_export_range [of exExportFile "cursor 1 14", THEN conjunct1]
      findInlinableCode_export_range [of exBareFile "cursor 1 14", THEN conjunct1]
      pair last1 last2
    by simp
qed

text \<open>
  C9, as amended. \<open>findInlinableCode\<close> returns the value assigned last in the order of
  the traversal, and nothing when no value is assigned: the last writer wins.
\<close>

theorem findInlinableCode_last_assignment:
  "findInlinableCode ast sel = last' (allAssignments ast sel)"
  by (simp add: findInlinableCode_overwrite overwrite_def last'_def last_conv_nth)

text \<open>
  C9 as stated fails: in the nested sample both declarations have several declarators
  and match the selection on \<open>c\<close>; the walk assigns the composite for \<open>b\<close> first and
  the one for \<open>c\<close> second, and the result is the second, not the first.
\<close>

theorem findInlinableCode_first_counterexample:
  "length (allAssignments exNested (cursor 1 35)) = 2
   \<and> list_all isMultiDeclarator (allAssignments exNested (cursor 1 35))
   \<and> name (fst (declaredId (allAssignments exNested (cursor 1 35) ! 0))) = ''b''
   \<and> name (fst (declaredId (allAssignments exNested (cursor 1 35) ! 1))) = ''c''
   \<and> findInlinableCode exNested (cursor 1 35) = Some (allAssignments exNested (cursor 1 35) ! 1)
   \<and> findInlinableCode exNested (cursor 1 35) \<noteq> Some (allAssignments exNested (cursor 1 35) ! 0)"
  by code_simp

subsection \<open>Validation\<close>

text \<open>
  C1. When no variable declaration entered by the search contains the selection, and
  more generally when the search finds no inlinable code, \<open>inlineVariable\<close> shows
  \<open>DidNotFoundInlinableCode\<close>; otherwise, when the identifier is reassigned in the
  defining scope, it shows \<open>CantInlineRedeclaredVariables\<close>; otherwise, when the name
  of the identifier is among the exported names of the scope, it shows
  \<open>CantInlineExportedVariables\<close>; otherwise, when there is no identifier to replace, it
  shows \<open>DidNotFoundInlinableCodeIdentifiers\<close>. In each of these cases the one call on
  the editor is \<open>showError\<close>: \<open>readThenWrite\<close> is called only when a declaration was
  found, the identifier is neither reassigned nor exported and some site is replaced.
\<close>

theorem inlineVariable_failures:
  "((\<forall>m \<in> set (allEntered ast). \<not> (ntype m = VariableDeclaration \<and> isInsideNode sel m)) \<longrightarrow>
      inlineVariable areEqual exported read ast sel = Inr (ShowError DidNotFoundInlinableCode))
   \<and> (findInlinableCode ast sel = None \<longrightarrow>
      inlineVariable areEqual exported read ast sel = Inr (ShowError DidNotFoundInlinableCode))
   \<and> (\<forall>c. findInlinableCode ast sel = Some c \<longrightarrow>
        (isReassigned areEqual c \<longrightarrow>
           inlineVariable areEqual exported read ast sel
             = Inr (ShowError CantInlineRedeclaredVariables))
      \<and> (\<not> isReassigned areEqual c
           \<and> name (fst (declaredId c)) \<in> set (exported (definingScope c)) \<longrightarrow>
           inlineVariable areEqual exported read ast sel
             = Inr (ShowError CantInlineExportedVariables))
      \<and> (\<not> isReassigned areEqual c
           \<and> name (fst (declaredId c)) \<notin> set (exported (definingScope c))
           \<and> identifiersToReplace areEqual c = Inr [] \<longrightarrow>
           inlineVariable areEqual exported read ast sel
             = Inr (ShowError DidNotFoundInlinableCodeIdentifiers)))
   \<and> (\<forall>s edits. inlineVariable areEqual exported read ast sel = Inr (ReadThenWrite s edits) \<longrightarrow>
        (\<exists>c sites. findInlinableCode ast sel = Some c \<and> \<not> isReassigned areEqual c
           \<and> name (fst (declaredId c)) \<notin> set (exported (definingScope c))
           \<and> identifiersToReplace areEqual c = Inr sites \<and> sites \<noteq> []))"
proof -
  have outside: "inlineVariable areEqual exported read ast sel
                   = Inr (ShowError DidNotFoundInlinableCode)"
    if "\<forall>m \<in> set (allEntered ast). \<not> (ntype m = VariableDeclaration \<and> isInsideNode sel m)"
    using findInlinableCode_outside [OF that] by (simp add: inlineVariable_def)
  have rest: "(findInlinableCode ast sel = None \<longrightarrow>
      inlineVariable areEqual exported read ast sel = Inr (ShowError DidNotFoundInlinableCode))
   \<and> (\<forall>c. findInlinableCode ast sel = Some c \<longrightarrow>
        (isReassigned areEqual c \<longrightarrow>
           inlineVariable areEqual exported read ast sel
             = Inr (ShowError CantInlineRedeclaredVariables))
      \<and> (\<not> isReassigned areEqual c
           \<and> name (fst (declaredId c)) \<in> set (exported (definingScope c)) \<longrightarrow>
           inlineVariable areEqual exported read ast sel
             = Inr (ShowError CantInlineExportedVariables))
      \<and> (\<not> isReassigned areEqual c
           \<and> name (fst (declaredId c)) \<notin> set (exported (definingScope c))
           \<and> identifiersToReplace areEqual c = Inr [] \<longrightarrow>
           inlineVariable areEqual exported read ast sel
             = Inr (ShowError DidNotFoundInlinableCodeIdentifiers)))
   \<and> (\<forall>s edits. inlineVariable areEqual exported read ast sel = Inr (ReadThenWrite s edits) \<longrightarrow>
        (\<exists>c sites. findInlinableCode ast sel = Some c \<and> \<not> isReassigned areEqual c
           \<and> name (fst (declaredId c)) \<notin> set (exported (definingScope c))
           \<and> identifiersToReplace areEqual c = Inr sites \<and> sites \<noteq> []))"
    by (auto simp: inlineVariable_def isRedeclared_isReassigned isExported_names
          split: option.splits sum.splits if_splits)
  from outside have first: "(\<forall>m \<in> set (allEntered ast).
        \<not> (ntype m = VariableDeclaration \<and> isInsideNode sel m)) \<longrightarrow>
      inlineVariable areEqual exported read ast sel = Inr (ShowError DidNotFoundInlinableCode)"
    by (rule impI)
  show ?thesis by (rule conjI [OF first rest])
qed

theorem inlineVariable_failures_witness:
  "inlineVariable sameName (\<lambda>n. []) (\<lambda>s. ''bar'') (exFileOf [exDeclaration, exStatement]) (cursor 2 7)
     = Inr (ShowError DidNotFoundInlinableCode)
   \<and> inlineVariable sameName (\<lambda>n. []) (\<lambda>s. ''bar'') (exFileOf [exDeclaration, exAssignment]) (cursor 1 7)
     = Inr (ShowError CantInlineRedeclaredVariables)
   \<and> inlineVariable sameName (\<lambda>n. [''foo'']) (\<lambda>s. ''bar'') (exFileOf [exDeclaration, exStatement]) (cursor 1 7)
     = Inr (ShowError CantInlineExportedVariables)
   \<and> inlineVariable sameName (\<lambda>n. []) (\<lambda>s. ''bar'') (exFileOf [exDeclaration]) (cursor 1 7)
     = Inr (ShowError DidNotFoundInlinableCodeIdentifiers)"
proof -
  have none: "\<forall>m \<in> set (allEntered (exFileOf [exDeclaration, exStatement])).
                \<not> (ntype m = VariableDeclaration \<and> isInsideNode (cursor 2 7) m)"
    by code_simp
  have f2: "findInlinableCode (exFileOf [exDeclaration, exAssignment]) (cursor 1 7)
              = Some (exLeafOf [exDeclaration, exAssignment])"
    by code_simp
  have r2: "isReassigned sameName (exLeafOf [exDeclaration, exAssignment])"
    by code_simp
  have f3: "findInlinableCode (exFileOf [exDeclaration, exStatement]) (cursor 1 7)
              = Some (exLeafOf [exDeclaration, exStatement])"
    by code_simp
  have r3: "\<not> isReassigned sameName (exLeafOf [exDeclaration, exStatement])
            \<and> name (fst (declaredId (exLeafOf [exDeclaration, exStatement])))
                \<in> set ((\<lambda>n. [''foo'']) (definingScope (exLeafOf [exDeclaration, exStatement])))"
    by code_simp
  have f4: "findInlinableCode (exFileOf [exDeclaration]) (cursor 1 7)
              = Some (exLeafOf [exDeclaration])"
    by code_simp
  have r4: "\<not> isReassigned sameName (exLeafOf [exDeclaration])
            \<and> name (fst (declaredId (exLeafOf [exDeclaration])))
                \<notin> set ((\<lambda>n. []) (definingScope (exLeafOf [exDeclaration])))
            \<and> identifiersToReplace sameName (exLeafOf [exDeclaration]) = Inr []"
    by code_simp
  have a1: "inlineVariable sameName (\<lambda>n. []) (\<lambda>s. ''bar'')
              (exFileOf [exDeclaration, exStatement]) (cursor 2 7)
            = Inr (ShowError DidNotFoundInlinableCode)"
    using inlineVariable_failures [of "exFileOf [exDeclaration, exStatement]" "cursor 2 7"
            sameName "\<lambda>n. []" "\<lambda>s. ''bar''", THEN conjunct1] none
    by (rule mp)
  have a2: "inlineVariable sameName (\<lambda>n. []) (\<lambda>s. ''bar'')
              (exFileOf [exDeclaration, exAssignment]) (cursor 1 7)
            = Inr (ShowError CantInlineRedeclaredVariables)"
    using inlineVariable_failures [of "exFileOf [exDeclaration, exAssignment]" "cursor 1 7"
            sameName "\<lambda>n. []" "\<lambda>s. ''bar''",
            THEN conjunct2, THEN conjunct2, THEN conjunct1, rule_format, OF f2] r2
    by blast
  have a3: "inlineVariable sameName (\<lambda>n. [''foo'']) (\<lambda>s. ''bar'')
              (exFileOf [exDeclaration, exStatement]) (cursor 1 7)
            = Inr (ShowError CantInlineExportedVariables)"
    using inlineVariable_failures [of "exFileOf [exDeclaration, exStatement]" "cursor 1 7"
            sameName "\<lambda>n. [''foo'']" "\<lambda>s. ''bar''",
            THEN conjunct2, THEN conjunct2, THEN conjunct1, rule_format, OF f3] r3
    by blast
  have a4: "inlineVariable sameName (\<lambda>n. []) (\<lambda>s. ''bar'')
              (exFileOf [exDeclaration]) (cursor 1 7)
            = Inr (ShowError DidNotFoundInlinableCodeIdentifiers)"
    using inlineVariable_failures [of "exFileOf [exDeclaration]" "cursor 1 7"
            sameName "\<lambda>n. []" "\<lambda>s. ''bar''",
            THEN conjunct2, THEN conjunct2, THEN conjunct1, rule_format, OF f4] r4
    by blast
  show ?thesis using a1 a2 a3 a4 by (intro conjI)
qed

subsection \<open>Identifiers to replace\<close>

lemma isShadowIn_isShadowed:
  "isShadowIn areEqual id' ancestors = isShadowed areEqual id' ancestors"
  unfolding isShadowIn_def isShadowed_def redefines_def isDeclaredInFunction_def
    isDeclaredInScope_def list_ex_iff
  by auto

lemma isCollected_isReplacementSite:
  "isCollected areEqual id' n ancestors \<longleftrightarrow>
     isReplacementSite areEqual id' n ancestors \<and> \<not> isComputedOperand n ancestors"
  by (auto simp: isCollected_def isReplacementSite_def isComputedOperand_def
        isShadowIn_isShadowed holdsAsKey_def holdsAsProperty_def isObjectPropertyKey_def
        isMemberPropertyName_def split: option.splits)

text \<open>
  What the code collects, against the replacement sites of the specification: the
  sites that are not the operand of a computed key or of a computed access.
\<close>

lemma identifiersToReplace_but_computed:
  assumes "collectedLocAt areEqual (declaredId c) (definingScope c, []) = None"
  shows "\<exists>sites. identifiersToReplace areEqual c = Inr sites
           \<and> map siteLoc sites =
               List.map_filter
                 (\<lambda>v. if isComputedOperand (fst v) (snd v) then None
                      else siteLocAt areEqual (declaredId c) v)
                 (visits (definingScope c) [])"
proof -
  let ?vs = "visits (definingScope c) []"
  let ?sites = "List.map_filter (siteAt areEqual (declaredId c)) ?vs"
  have r: "identifiersToReplace areEqual c = Inr ?sites"
    using assms by (simp add: identifiersToReplace_sites)
  have m: "map siteLoc ?sites = List.map_filter (collectedLocAt areEqual (declaredId c)) ?vs"
    unfolding map_map_filter
    by (rule map_filter_cong') (simp add: siteLoc_siteAt [OF assms])
  have e: "collectedLocAt areEqual (declaredId c) =
             (\<lambda>v. if isComputedOperand (fst v) (snd v) then None
                  else siteLocAt areEqual (declaredId c) v)"
    by (auto simp: fun_eq_iff collectedLocAt_def siteLocAt_def isCollected_isReplacementSite)
  show ?thesis using r m unfolding e by blast
qed

text \<open>
  C2. The handler of \<open>identifiersToReplace\<close> never reads \<open>computed\<close>: it skips the
  operand of a computed access as if it were a property name. In
  \<^verbatim>\<open>const foo = 1;\<close>
  \<^verbatim>\<open>log(bar[foo], foo);\<close>
  with the cursor on the declaration of \<open>foo\<close>, the nodes that are equal to the
  identifier, are not the declaration site, are not shadowed and are neither a key nor
  a property name are the two \<open>foo\<close> of the second line; the code collects the second
  only, and \<open>inlineVariable\<close> removes the declaration while \<^verbatim>\<open>bar[foo]\<close> still
  reads \<open>foo\<close>.
\<close>

theorem identifiersToReplace_skips_computed_operand:
  "findInlinableCode exComputedFile (cursor 1 7) = Some exComputedLeaf
   \<and> identifiersToReplace sameName exComputedLeaf =
       Inr [\<lparr>siteLoc = range 2 14 2 17, isInUnaryExpression = False, shorthandKey = None\<rparr>]
   \<and> List.map_filter (siteLocAt sameName (declaredId exComputedLeaf))
         (visits (definingScope exComputedLeaf) [])
       = [range 2 8 2 11, range 2 14 2 17]
   \<and> inlineVariable sameName (\<lambda>n. []) (readLines exComputedLines) exComputedFile (cursor 1 7) =
       Inr (ReadThenWrite (fromAST (range 1 12 1 13))
         [\<lparr>code = ''1'', editSelection = fromAST (range 2 14 2 17)\<rparr>,
          \<lparr>code = [], editSelection =
             \<lparr>start = \<lparr>line = 1, column = 0\<rparr>, end' = \<lparr>line = 2, column = 0\<rparr>\<rparr>\<rparr>])"
proof (intro conjI)
  show "findInlinableCode exComputedFile (cursor 1 7) = Some exComputedLeaf"
    by code_simp
  show "identifiersToReplace sameName exComputedLeaf =
       Inr [\<lparr>siteLoc = range 2 14 2 17, isInUnaryExpression = False, shorthandKey = None\<rparr>]"
    by code_simp
  show "List.map_filter (siteLocAt sameName (declaredId exComputedLeaf))
         (visits (definingScope exComputedLeaf) [])
       = [range 2 8 2 11, range 2 14 2 17]"
    by code_simp
  show "inlineVariable sameName (\<lambda>n. []) (readLines exComputedLines) exComputedFile (cursor 1 7) =
       Inr (ReadThenWrite (fromAST (range 1 12 1 13))
         [\<lparr>code = ''1'', editSelection = fromAST (range 2 14 2 17)\<rparr>,
          \<lparr>code = [], editSelection =
             \<lparr>start = \<lparr>line = 1, column = 0\<rparr>, end' = \<lparr>line = 2, column = 0\<rparr>\<rparr>\<rparr>])"
    by code_simp
qed

subsection \<open>The removed code\<close>

lemma at_Some: "at xs i = Some x \<longleftrightarrow> 0 \<le> i \<and> i < int (length xs) \<and> x = xs ! nat i"
  by (auto simp: at_def)

lemma at_None: "at xs i = None \<longleftrightarrow> \<not> (0 \<le> i \<and> i < int (length xs))"
  by (auto simp: at_def)

lemma declarationsLocsAt_direction:
  assumes "declarationsLocsAt declarations index = Some locs"
  shows "current locs = snd (declarations ! index)
         \<and> (index + 1 < length declarations \<longrightarrow>
              isOtherAfterCurrent locs \<and> other locs = snd (declarations ! (index + 1)))
         \<and> (\<not> index + 1 < length declarations \<longrightarrow>
              0 < index \<and> index + 1 = length declarations
              \<and> \<not> isOtherAfterCurrent locs \<and> other locs = snd (declarations ! (index - 1)))"
proof (cases "index + 1 < length declarations")
  case True
  then have "at declarations (int index) = Some (declarations ! index)"
    and "at declarations (int index + 1) = Some (declarations ! (index + 1))"
    by (simp_all add: at_def nat_add_distrib)
  with assms True show ?thesis
    by (auto simp: declarationsLocsAt_def Let_def)
next
  case False
  then have n: "at declarations (int index + 1) = None"
    by (simp add: at_def)
  from assms obtain d where d: "at declarations (int index) = Some d"
    by (auto simp: declarationsLocsAt_def split: option.splits)
  then have i: "index < length declarations" and dd: "d = declarations ! index"
    by (auto simp: at_Some)
  from assms d n obtain p where p: "at declarations (int index - 1) = Some p"
    by (auto simp: declarationsLocsAt_def Let_def split: option.splits)
  then have "0 < index" and "p = declarations ! (index - 1)"
    by (auto simp: at_Some nat_diff_distrib')
  with assms d n p i dd False show ?thesis
    by (auto simp: declarationsLocsAt_def Let_def)
qed

lemma inlinableDeclarations_locs:
  assumes "inlinableDeclarations sel parent declarations index = Some c"
  shows "\<exists>leaf locs. c = InlinableDeclarations leaf locs
           \<and> declarationsLocsAt declarations index = Some locs
           \<and> inlinableIdentifier parent (fst (declarations ! index)) = Some leaf
           \<and> isInsideNode sel (fst (declarations ! index))"
  using assms
  by (auto simp: inlinableDeclarations_def at_Some split: option.splits if_splits)

lemma inlinableIdentifier_leaf:
  assumes "inlinableIdentifier parent declaration = Some c"
  shows "\<exists>idn idLoc init valueLoc.
           child ''id'' declaration = Some idn \<and> ntype idn = Identifier \<and> loc idn = Some idLoc
           \<and> child ''init'' declaration = Some init \<and> loc init = Some valueLoc
           \<and> c = InlinableIdentifier (settled idn, idLoc) (settled parent) (fromAST valueLoc)"
  using assms
  by (auto simp: inlinableIdentifier_def split: option.splits if_splits)

lemma selectableDeclarators_loc:
  "d \<in> set (selectableDeclarators n) \<Longrightarrow>
     loc (fst d) = Some (snd d) \<and> fst d \<in> set (children ''declarations'' n)"
  by (auto simp: selectableDeclarators_def set_map_filter)

lemma assigned_declarator:
  assumes "c \<in> set (assignedAt sel p n)"
  shows "ntype n = VariableDeclaration \<and> isInsideNode sel n
         \<and> (\<exists>d idn idLoc init valueLoc.
               d \<in> set (selectableDeclarators n)
               \<and> child ''id'' (fst d) = Some idn \<and> ntype idn = Identifier
               \<and> loc idn = Some idLoc
               \<and> child ''init'' (fst d) = Some init \<and> loc init = Some valueLoc
               \<and> declaredId c = (settled idn, idLoc) \<and> definingScope c = settled p
               \<and> selection c = fromAST valueLoc)"
proof -
  let ?ds = "selectableDeclarators n"
  note cases = assignedAt_cases [OF assms]
  then consider "length ?ds = 1" and "inlinableIdentifier p (fst (?ds ! 0)) = Some c"
    | index where "index < length ?ds" and "inlinableDeclarations sel p ?ds index = Some c"
    by (auto split: if_splits)
  then have "\<exists>d idn idLoc init valueLoc.
               d \<in> set ?ds
               \<and> child ''id'' (fst d) = Some idn \<and> ntype idn = Identifier
               \<and> loc idn = Some idLoc
               \<and> child ''init'' (fst d) = Some init \<and> loc init = Some valueLoc
               \<and> declaredId c = (settled idn, idLoc) \<and> definingScope c = settled p
               \<and> selection c = fromAST valueLoc"
  proof cases
    case 1
    then have "?ds ! 0 \<in> set ?ds" by simp
    with inlinableIdentifier_leaf [OF 1(2)] show ?thesis by fastforce
  next
    case 2
    from inlinableDeclarations_locs [OF 2(2)] obtain leaf locs
      where c: "c = InlinableDeclarations leaf locs"
        and leaf: "inlinableIdentifier p (fst (?ds ! index)) = Some leaf"
      by blast
    have "?ds ! index \<in> set ?ds" using 2(1) by simp
    with inlinableIdentifier_leaf [OF leaf] show ?thesis
      unfolding c by fastforce
  qed
  with cases show ?thesis by blast
qed

lemma assigned_removal:
  assumes "c \<in> set (assignedAt sel p n)"
  shows "if length (selectableDeclarators n) = 1
         then (\<exists>idn idLoc init valueLoc.
                 child ''id'' (fst (selectableDeclarators n ! 0)) = Some idn
                 \<and> loc idn = Some idLoc
                 \<and> child ''init'' (fst (selectableDeclarators n ! 0)) = Some init
                 \<and> loc init = Some valueLoc
                 \<and> codeToRemoveSelection c =
                     extendToStartOfNextLine (extendToStartOfLine
                       (extendStartTo (fromAST valueLoc) (fromAST idLoc))))
         else (\<exists>index < length (selectableDeclarators n).
                 isInsideNode sel (fst (selectableDeclarators n ! index))
                 \<and> (index + 1 < length (selectableDeclarators n) \<longrightarrow>
                      codeToRemoveSelection c =
                        extendEndTo (fromAST (snd (selectableDeclarators n ! index)))
                          (fromAST (snd (selectableDeclarators n ! (index + 1)))))
                 \<and> (\<not> index + 1 < length (selectableDeclarators n) \<longrightarrow>
                      0 < index
                      \<and> codeToRemoveSelection c =
                          extendStartTo (fromAST (snd (selectableDeclarators n ! index)))
                            (fromAST (snd (selectableDeclarators n ! (index - 1))))))"
proof (cases "length (selectableDeclarators n) = 1")
  case True
  with assignedAt_cases [OF assms]
  have "inlinableIdentifier p (fst (selectableDeclarators n ! 0)) = Some c" by simp
  from inlinableIdentifier_leaf [OF this] True show ?thesis by auto
next
  case False
  let ?ds = "selectableDeclarators n"
  from assignedAt_cases [OF assms] False obtain index
    where i: "index < length ?ds" and c: "inlinableDeclarations sel p ?ds index = Some c"
    by auto
  from inlinableDeclarations_locs [OF c] obtain leaf locs
    where cl: "c = InlinableDeclarations leaf locs"
      and locs: "declarationsLocsAt ?ds index = Some locs"
      and inside: "isInsideNode sel (fst (?ds ! index))"
    by blast
  note dir = declarationsLocsAt_direction [OF locs]
  have "isInsideNode sel (fst (?ds ! index))
        \<and> (index + 1 < length ?ds \<longrightarrow>
              codeToRemoveSelection c =
                extendEndTo (fromAST (snd (?ds ! index))) (fromAST (snd (?ds ! (index + 1)))))
        \<and> (\<not> index + 1 < length ?ds \<longrightarrow>
              0 < index
              \<and> codeToRemoveSelection c =
                  extendStartTo (fromAST (snd (?ds ! index))) (fromAST (snd (?ds ! (index - 1)))))"
    using dir inside by (simp add: cl)
  with i False show ?thesis by auto
qed

text \<open>
  C4. When the checks pass, \<open>inlineVariable\<close> writes the edits of the sites followed by
  one removal edit, and whenever it writes, the last edit removes
  \<open>codeToRemoveSelection\<close> of the inlinable code found, the last one assigned over the
  traversal. Every inlinable code assigned comes from a variable declaration entered by
  the traversal that contains the selection. For a declaration with one declarator the
  removed selection is the range of the initial value, its start extended to the
  identifier, then to the start of its line, and its end to the start of the next line.
  For a declaration with several declarators it belongs to a declarator at some \<open>index\<close>
  that contains the selection, and is the range of that declarator with its end
  extended to the next declarator when there is one, and otherwise (the declarator is
  the last one and not the first) with its start extended to the previous declarator.
\<close>

theorem inlineVariable_removal_edit:
  "(\<forall>c sites. last' (allAssignments ast sel) = Some c \<and> \<not> isReassigned areEqual c
        \<and> name (fst (declaredId c)) \<notin> set (exported (definingScope c))
        \<and> identifiersToReplace areEqual c = Inr sites \<and> sites \<noteq> [] \<longrightarrow>
      (\<exists>edits. inlineVariable areEqual exported read ast sel =
          Inr (ReadThenWrite (selection c)
                 (edits @ [\<lparr>code = [], editSelection = codeToRemoveSelection c\<rparr>]))
         \<and> length edits = length sites))
   \<and> (\<forall>s edits. inlineVariable areEqual exported read ast sel = Inr (ReadThenWrite s edits) \<longrightarrow>
        (\<exists>c. last' (allAssignments ast sel) = Some c \<and> edits \<noteq> []
           \<and> last edits = \<lparr>code = [], editSelection = codeToRemoveSelection c\<rparr>))
   \<and> (\<forall>c \<in> set (allAssignments ast sel). \<exists>pn \<in> set (allEnteredPairs ast).
        ntype (snd pn) = VariableDeclaration \<and> isInsideNode sel (snd pn)
        \<and> (\<forall>d \<in> set (selectableDeclarators (snd pn)). loc (fst d) = Some (snd d))
        \<and> (if length (selectableDeclarators (snd pn)) = 1
            then (\<exists>idn idLoc init valueLoc.
                    child ''id'' (fst (selectableDeclarators (snd pn) ! 0)) = Some idn
                    \<and> loc idn = Some idLoc
                    \<and> child ''init'' (fst (selectableDeclarators (snd pn) ! 0)) = Some init
                    \<and> loc init = Some valueLoc
                    \<and> codeToRemoveSelection c =
                        extendToStartOfNextLine (extendToStartOfLine
                          (extendStartTo (fromAST valueLoc) (fromAST idLoc))))
            else (\<exists>index < length (selectableDeclarators (snd pn)).
                    isInsideNode sel (fst (selectableDeclarators (snd pn) ! index))
                    \<and> (index + 1 < length (selectableDeclarators (snd pn)) \<longrightarrow>
                         codeToRemoveSelection c =
                           extendEndTo (fromAST (snd (selectableDeclarators (snd pn) ! index)))
                             (fromAST (snd (selectableDeclarators (snd pn) ! (index + 1)))))
                    \<and> (\<not> index + 1 < length (selectableDeclarators (snd pn)) \<longrightarrow>
                         0 < index
                         \<and> codeToRemoveSelection c =
                             extendStartTo (fromAST (snd (selectableDeclarators (snd pn) ! index)))
                               (fromAST (snd (selectableDeclarators (snd pn) ! (index - 1))))))))"
proof (intro conjI)
  show "\<forall>c sites. last' (allAssignments ast sel) = Some c \<and> \<not> isReassigned areEqual c
        \<and> name (fst (declaredId c)) \<notin> set (exported (definingScope c))
        \<and> identifiersToReplace areEqual c = Inr sites \<and> sites \<noteq> [] \<longrightarrow>
      (\<exists>edits. inlineVariable areEqual exported read ast sel =
          Inr (ReadThenWrite (selection c)
                 (edits @ [\<lparr>code = [], editSelection = codeToRemoveSelection c\<rparr>]))
         \<and> length edits = length sites)"
  proof (intro allI impI)
    fix c sites
    assume h: "last' (allAssignments ast sel) = Some c \<and> \<not> isReassigned areEqual c
        \<and> name (fst (declaredId c)) \<notin> set (exported (definingScope c))
        \<and> identifiersToReplace areEqual c = Inr sites \<and> sites \<noteq> []"
    then have "findInlinableCode ast sel = Some c" by (simp add: found_last)
    with h have "inlineVariable areEqual exported read ast sel =
          Inr (ReadThenWrite (selection c)
                 (map (\<lambda>site. \<lparr>code = replacementCode site (read (selection c)),
                                editSelection = fromAST (siteLoc site)\<rparr>) sites
                  @ [\<lparr>code = [], editSelection = codeToRemoveSelection c\<rparr>]))"
      by (simp add: inlineVariable_def isRedeclared_isReassigned isExported_names
            modifications_def)
    then show "\<exists>edits. inlineVariable areEqual exported read ast sel =
          Inr (ReadThenWrite (selection c)
                 (edits @ [\<lparr>code = [], editSelection = codeToRemoveSelection c\<rparr>]))
         \<and> length edits = length sites"
      by (intro exI [of _ "map (\<lambda>site. \<lparr>code = replacementCode site (read (selection c)),
                                editSelection = fromAST (siteLoc site)\<rparr>) sites"]) simp
  qed
next
  show "\<forall>s edits. inlineVariable areEqual exported read ast sel = Inr (ReadThenWrite s edits) \<longrightarrow>
        (\<exists>c. last' (allAssignments ast sel) = Some c \<and> edits \<noteq> []
           \<and> last edits = \<lparr>code = [], editSelection = codeToRemoveSelection c\<rparr>)"
  proof (intro allI impI)
    fix s edits
    assume "inlineVariable areEqual exported read ast sel = Inr (ReadThenWrite s edits)"
    then obtain c sites where c: "findInlinableCode ast sel = Some c"
      and edits: "edits = modifications c sites (read (selection c))"
      by (auto simp: inlineVariable_def split: option.splits sum.splits if_splits)
    from c have "last' (allAssignments ast sel) = Some c" by (simp add: found_last)
    moreover have "edits \<noteq> []
        \<and> last edits = \<lparr>code = [], editSelection = codeToRemoveSelection c\<rparr>"
      by (simp add: edits modifications_def)
    ultimately show "\<exists>c. last' (allAssignments ast sel) = Some c \<and> edits \<noteq> []
           \<and> last edits = \<lparr>code = [], editSelection = codeToRemoveSelection c\<rparr>"
      by blast
  qed
next
  show "\<forall>c \<in> set (allAssignments ast sel). \<exists>pn \<in> set (allEnteredPairs ast).
        ntype (snd pn) = VariableDeclaration \<and> isInsideNode sel (snd pn)
        \<and> (\<forall>d \<in> set (selectableDeclarators (snd pn)). loc (fst d) = Some (snd d))
        \<and> (if length (selectableDeclarators (snd pn)) = 1
            then (\<exists>idn idLoc init valueLoc.
                    child ''id'' (fst (selectableDeclarators (snd pn) ! 0)) = Some idn
                    \<and> loc idn = Some idLoc
                    \<and> child ''init'' (fst (selectableDeclarators (snd pn) ! 0)) = Some init
                    \<and> loc init = Some valueLoc
                    \<and> codeToRemoveSelection c =
                        extendToStartOfNextLine (extendToStartOfLine
                          (extendStartTo (fromAST valueLoc) (fromAST idLoc))))
            else (\<exists>index < length (selectableDeclarators (snd pn)).
                    isInsideNode sel (fst (selectableDeclarators (snd pn) ! index))
                    \<and> (index + 1 < length (selectableDeclarators (snd pn)) \<longrightarrow>
                         codeToRemoveSelection c =
                           extendEndTo (fromAST (snd (selectableDeclarators (snd pn) ! index)))
                             (fromAST (snd (selectableDeclarators (snd pn) ! (index + 1)))))
                    \<and> (\<not> index + 1 < length (selectableDeclarators (snd pn)) \<longrightarrow>
                         0 < index
                         \<and> codeToRemoveSelection c =
                             extendStartTo (fromAST (snd (selectableDeclarators (snd pn) ! index)))
                               (fromAST (snd (selectableDeclarators (snd pn) ! (index - 1)))))))"
  proof
    fix c assume "c \<in> set (allAssignments ast sel)"
    from assigned_pair [OF this] obtain p n
      where pn: "(p, n) \<in> set (allEnteredPairs ast)" and c: "c \<in> set (assignedAt sel p n)"
      by blast
    from assignedAt_cases [OF c] have v: "ntype n = VariableDeclaration" "isInsideNode sel n"
      by simp_all
    have l: "\<forall>d \<in> set (selectableDeclarators n). loc (fst d) = Some (snd d)"
      using selectableDeclarators_loc by blast
    note shape = assigned_removal [OF c]
    show "\<exists>pn \<in> set (allEnteredPairs ast).
        ntype (snd pn) = VariableDeclaration \<and> isInsideNode sel (snd pn)
        \<and> (\<forall>d \<in> set (selectableDeclarators (snd pn)). loc (fst d) = Some (snd d))
        \<and> (if length (selectableDeclarators (snd pn)) = 1
            then (\<exists>idn idLoc init valueLoc.
                    child ''id'' (fst (selectableDeclarators (snd pn) ! 0)) = Some idn
                    \<and> loc idn = Some idLoc
                    \<and> child ''init'' (fst (selectableDeclarators (snd pn) ! 0)) = Some init
                    \<and> loc init = Some valueLoc
                    \<and> codeToRemoveSelection c =
                        extendToStartOfNextLine (extendToStartOfLine
                          (extendStartTo (fromAST valueLoc) (fromAST idLoc))))
            else (\<exists>index < length (selectableDeclarators (snd pn)).
                    isInsideNode sel (fst (selectableDeclarators (snd pn) ! index))
                    \<and> (index + 1 < length (selectableDeclarators (snd pn)) \<longrightarrow>
                         codeToRemoveSelection c =
                           extendEndTo (fromAST (snd (selectableDeclarators (snd pn) ! index)))
                             (fromAST (snd (selectableDeclarators (snd pn) ! (index + 1)))))
                    \<and> (\<not> index + 1 < length (selectableDeclarators (snd pn)) \<longrightarrow>
                         0 < index
                         \<and> codeToRemoveSelection c =
                             extendStartTo (fromAST (snd (selectableDeclarators (snd pn) ! index)))
                               (fromAST (snd (selectableDeclarators (snd pn) ! (index - 1)))))))"
      by (rule bexI [OF _ pn])
         (simp only: fst_conv snd_conv, rule conjI, rule v, rule conjI, rule v,
          rule conjI, rule l, rule shape)
  qed
qed

theorem inlineVariable_removal_edit_witness:
  "inlineVariable sameName (\<lambda>n. []) (readLines exPairLines) exPairFile (cursor 1 6) =
     Inr (ReadThenWrite (fromAST (range 1 10 1 11))
       [\<lparr>code = ''1'', editSelection = fromAST (range 2 4 2 5)\<rparr>,
        \<lparr>code = [], editSelection =
           \<lparr>start = \<lparr>line = 1, column = 6\<rparr>, end' = \<lparr>line = 1, column = 13\<rparr>\<rparr>\<rparr>])
   \<and> (\<exists>c. last' (allAssignments exPairFile (cursor 1 6)) = Some c
        \<and> codeToRemoveSelection c =
            \<lparr>start = \<lparr>line = 1, column = 6\<rparr>, end' = \<lparr>line = 1, column = 13\<rparr>\<rparr>)
   \<and> inlineVariable sameName (\<lambda>n. []) (readLines exPairLines) exPairFile (cursor 1 13) =
     Inr (ReadThenWrite (fromAST (range 1 17 1 18))
       [\<lparr>code = ''2'', editSelection = fromAST (range 2 7 2 8)\<rparr>,
        \<lparr>code = [], editSelection =
           \<lparr>start = \<lparr>line = 1, column = 11\<rparr>, end' = \<lparr>line = 1, column = 18\<rparr>\<rparr>\<rparr>])
   \<and> (\<exists>c. last' (allAssignments exPairFile (cursor 1 13)) = Some c
        \<and> codeToRemoveSelection c =
            \<lparr>start = \<lparr>line = 1, column = 11\<rparr>, end' = \<lparr>line = 1, column = 18\<rparr>\<rparr>)
   \<and> inlineVariable sameName (\<lambda>n. []) (readLines exLines)
       (exFileOf [exDeclaration, exStatement]) (cursor 1 7) =
     Inr (ReadThenWrite (fromAST (range 1 12 1 15))
       [\<lparr>code = ''(bar)'', editSelection = fromAST (range 2 5 2 8)\<rparr>,
        \<lparr>code = ''foo: bar'', editSelection = fromAST (range 2 12 2 15)\<rparr>,
        \<lparr>code = ''bar'', editSelection = fromAST (range 2 19 2 22)\<rparr>,
        \<lparr>code = [], editSelection =
           \<lparr>start = \<lparr>line = 1, column = 0\<rparr>, end' = \<lparr>line = 2, column = 0\<rparr>\<rparr>\<rparr>])
   \<and> (\<exists>c. last' (allAssignments (exFileOf [exDeclaration, exStatement]) (cursor 1 7)) = Some c
        \<and> codeToRemoveSelection c =
            \<lparr>start = \<lparr>line = 1, column = 0\<rparr>, end' = \<lparr>line = 2, column = 0\<rparr>\<rparr>)"
proof -
  have run1: "inlineVariable sameName (\<lambda>n. []) (readLines exPairLines) exPairFile (cursor 1 6) =
     Inr (ReadThenWrite (fromAST (range 1 10 1 11))
       [\<lparr>code = ''1'', editSelection = fromAST (range 2 4 2 5)\<rparr>,
        \<lparr>code = [], editSelection =
           \<lparr>start = \<lparr>line = 1, column = 6\<rparr>, end' = \<lparr>line = 1, column = 13\<rparr>\<rparr>\<rparr>])"
    by code_simp
  have run2: "inlineVariable sameName (\<lambda>n. []) (readLines exPairLines) exPairFile (cursor 1 13) =
     Inr (ReadThenWrite (fromAST (range 1 17 1 18))
       [\<lparr>code = ''2'', editSelection = fromAST (range 2 7 2 8)\<rparr>,
        \<lparr>code = [], editSelection =
           \<lparr>start = \<lparr>line = 1, column = 11\<rparr>, end' = \<lparr>line = 1, column = 18\<rparr>\<rparr>\<rparr>])"
    by code_simp
  have run3: "inlineVariable sameName (\<lambda>n. []) (readLines exLines)
       (exFileOf [exDeclaration, exStatement]) (cursor 1 7) =
     Inr (ReadThenWrite (fromAST (range 1 12 1 15))
       [\<lparr>code = ''(bar)'', editSelection = fromAST (range 2 5 2 8)\<rparr>,
        \<lparr>code = ''foo: bar'', editSelection = fromAST (range 2 12 2 15)\<rparr>,
        \<lparr>code = ''bar'', editSelection = fromAST (range 2 19 2 22)\<rparr>,
        \<lparr>code = [], editSelection =
           \<lparr>start = \<lparr>line = 1, column = 0\<rparr>, end' = \<lparr>line = 2, column = 0\<rparr>\<rparr>\<rparr>])"
    by code_simp
  have c1: "\<exists>c. last' (allAssignments exPairFile (cursor 1 6)) = Some c
        \<and> codeToRemoveSelection c =
            \<lparr>start = \<lparr>line = 1, column = 6\<rparr>, end' = \<lparr>line = 1, column = 13\<rparr>\<rparr>"
    using inlineVariable_removal_edit [of exPairFile "cursor 1 6" sameName "\<lambda>n. []"
        "readLines exPairLines", THEN conjunct2, THEN conjunct1, rule_format, OF run1]
    by auto
  have c2: "\<exists>c. last' (allAssignments exPairFile (cursor 1 13)) = Some c
        \<and> codeToRemoveSelection c =
            \<lparr>start = \<lparr>line = 1, column = 11\<rparr>, end' = \<lparr>line = 1, column = 18\<rparr>\<rparr>"
    using inlineVariable_removal_edit [of exPairFile "cursor 1 13" sameName "\<lambda>n. []"
        "readLines exPairLines", THEN conjunct2, THEN conjunct1, rule_format, OF run2]
    by auto
  have c3: "\<exists>c. last' (allAssignments (exFileOf [exDeclaration, exStatement]) (cursor 1 7)) = Some c
        \<and> codeToRemoveSelection c =
            \<lparr>start = \<lparr>line = 1, column = 0\<rparr>, end' = \<lparr>line = 2, column = 0\<rparr>\<rparr>"
    using inlineVariable_removal_edit [of "exFileOf [exDeclaration, exStatement]" "cursor 1 7"
        sameName "\<lambda>n. []" "readLines exLines", THEN conjunct2, THEN conjunct1, rule_format,
        OF run3]
    by auto
  show ?thesis
    by (intro conjI run1 run2 run3 c1 c2 c3)
qed

subsection \<open>Replacement text\<close>

text \<open>
  C5. When \<open>inlineVariable\<close> calls \<open>readThenWrite\<close>, the inlinable code found comes
  from a declarator of a variable declaration that the traversal enters and that
  contains the selection; the selection read is the range of the initial value of that
  declarator, and the edits are, for every collected site in the order of the walk of
  the scope, the text \<open>replacementFor\<close> gives at the range of the site (the text read
  in parentheses below a unary expression, \<open>name: text\<close> for an identifier below a
  shorthand object property, the text as read otherwise), followed by the removal of
  the declaration. When the checks pass, the call is made with these edits.
\<close>

theorem inlineVariable_site_edits:
  "(\<forall>s edits. inlineVariable areEqual exported read ast sel = Inr (ReadThenWrite s edits) \<longrightarrow>
      (\<exists>c p n d idn idLoc init valueLoc.
          findInlinableCode ast sel = Some c
          \<and> (p, n) \<in> set (allEnteredPairs ast)
          \<and> ntype n = VariableDeclaration \<and> isInsideNode sel n
          \<and> d \<in> set (selectableDeclarators n)
          \<and> child ''id'' (fst d) = Some idn \<and> loc idn = Some idLoc
          \<and> child ''init'' (fst d) = Some init \<and> loc init = Some valueLoc
          \<and> declaredId c = (settled idn, idLoc) \<and> definingScope c = settled p
          \<and> s = selection c \<and> s = fromAST valueLoc
          \<and> edits =
              List.map_filter (editAt areEqual (settled idn, idLoc) (read (fromAST valueLoc)))
                (visits (settled p) [])
              @ [\<lparr>code = [], editSelection = codeToRemoveSelection c\<rparr>]))
   \<and> (\<forall>c sites. last' (allAssignments ast sel) = Some c \<and> \<not> isReassigned areEqual c
          \<and> name (fst (declaredId c)) \<notin> set (exported (definingScope c))
          \<and> identifiersToReplace areEqual c = Inr sites \<and> sites \<noteq> [] \<longrightarrow>
        inlineVariable areEqual exported read ast sel =
          Inr (ReadThenWrite (selection c)
                 (List.map_filter (editAt areEqual (declaredId c) (read (selection c)))
                    (visits (definingScope c) [])
                  @ [\<lparr>code = [], editSelection = codeToRemoveSelection c\<rparr>])))"
proof
  show "\<forall>s edits. inlineVariable areEqual exported read ast sel = Inr (ReadThenWrite s edits) \<longrightarrow>
      (\<exists>c p n d idn idLoc init valueLoc.
          findInlinableCode ast sel = Some c
          \<and> (p, n) \<in> set (allEnteredPairs ast)
          \<and> ntype n = VariableDeclaration \<and> isInsideNode sel n
          \<and> d \<in> set (selectableDeclarators n)
          \<and> child ''id'' (fst d) = Some idn \<and> loc idn = Some idLoc
          \<and> child ''init'' (fst d) = Some init \<and> loc init = Some valueLoc
          \<and> declaredId c = (settled idn, idLoc) \<and> definingScope c = settled p
          \<and> s = selection c \<and> s = fromAST valueLoc
          \<and> edits =
              List.map_filter (editAt areEqual (settled idn, idLoc) (read (fromAST valueLoc)))
                (visits (settled p) [])
              @ [\<lparr>code = [], editSelection = codeToRemoveSelection c\<rparr>])"
  proof (intro allI impI)
    fix s edits
    assume "inlineVariable areEqual exported read ast sel = Inr (ReadThenWrite s edits)"
    then obtain c sites where c: "findInlinableCode ast sel = Some c"
      and sites: "identifiersToReplace areEqual c = Inr sites"
      and s: "s = selection c"
      and edits: "edits = modifications c sites (read (selection c))"
      by (auto simp: inlineVariable_def split: option.splits sum.splits if_splits)
    have "sites = List.map_filter (siteAt areEqual (declaredId c)) (visits (definingScope c) [])"
      using sites by (simp add: identifiersToReplace_sites split: if_splits)
    then have e: "edits =
        List.map_filter (editAt areEqual (declaredId c) (read s)) (visits (definingScope c) [])
        @ [\<lparr>code = [], editSelection = codeToRemoveSelection c\<rparr>]"
      by (simp add: edits s modifications_def map_map_filter comp_def edit_siteAt)
    from assigned_pair [OF found_assigned [OF c]] obtain p n
      where pn: "(p, n) \<in> set (allEnteredPairs ast)" and a: "c \<in> set (assignedAt sel p n)"
      by blast
    from assigned_declarator [OF a] obtain d idn idLoc init valueLoc
      where n: "ntype n = VariableDeclaration" "isInsideNode sel n"
        and d: "d \<in> set (selectableDeclarators n)"
        and idn: "child ''id'' (fst d) = Some idn" "loc idn = Some idLoc"
        and init: "child ''init'' (fst d) = Some init" "loc init = Some valueLoc"
        and dc: "declaredId c = (settled idn, idLoc)" "definingScope c = settled p"
        and sc: "selection c = fromAST valueLoc"
      by blast
    have e': "edits =
        List.map_filter (editAt areEqual (settled idn, idLoc) (read (fromAST valueLoc)))
          (visits (settled p) [])
        @ [\<lparr>code = [], editSelection = codeToRemoveSelection c\<rparr>]"
      using e by (simp add: dc s sc)
    have s': "s = fromAST valueLoc" using s sc by simp
    show "\<exists>c p n d idn idLoc init valueLoc.
          findInlinableCode ast sel = Some c
          \<and> (p, n) \<in> set (allEnteredPairs ast)
          \<and> ntype n = VariableDeclaration \<and> isInsideNode sel n
          \<and> d \<in> set (selectableDeclarators n)
          \<and> child ''id'' (fst d) = Some idn \<and> loc idn = Some idLoc
          \<and> child ''init'' (fst d) = Some init \<and> loc init = Some valueLoc
          \<and> declaredId c = (settled idn, idLoc) \<and> definingScope c = settled p
          \<and> s = selection c \<and> s = fromAST valueLoc
          \<and> edits =
              List.map_filter (editAt areEqual (settled idn, idLoc) (read (fromAST valueLoc)))
                (visits (settled p) [])
              @ [\<lparr>code = [], editSelection = codeToRemoveSelection c\<rparr>]"
      by (intro exI [of _ c] exI [of _ p] exI [of _ n] exI [of _ d] exI [of _ idn]
            exI [of _ idLoc] exI [of _ init] exI [of _ valueLoc] conjI
            c pn n d idn init dc s s' e')
  qed
next
  show "\<forall>c sites. last' (allAssignments ast sel) = Some c \<and> \<not> isReassigned areEqual c
          \<and> name (fst (declaredId c)) \<notin> set (exported (definingScope c))
          \<and> identifiersToReplace areEqual c = Inr sites \<and> sites \<noteq> [] \<longrightarrow>
        inlineVariable areEqual exported read ast sel =
          Inr (ReadThenWrite (selection c)
                 (List.map_filter (editAt areEqual (declaredId c) (read (selection c)))
                    (visits (definingScope c) [])
                  @ [\<lparr>code = [], editSelection = codeToRemoveSelection c\<rparr>]))"
  proof (intro allI impI)
    fix c sites
    assume h: "last' (allAssignments ast sel) = Some c \<and> \<not> isReassigned areEqual c
          \<and> name (fst (declaredId c)) \<notin> set (exported (definingScope c))
          \<and> identifiersToReplace areEqual c = Inr sites \<and> sites \<noteq> []"
    then have f: "findInlinableCode ast sel = Some c" by (simp add: found_last)
    have "sites = List.map_filter (siteAt areEqual (declaredId c)) (visits (definingScope c) [])"
      using h by (simp add: identifiersToReplace_sites split: if_splits)
    then have "modifications c sites (read (selection c)) =
        List.map_filter (editAt areEqual (declaredId c) (read (selection c)))
          (visits (definingScope c) [])
        @ [\<lparr>code = [], editSelection = codeToRemoveSelection c\<rparr>]"
      by (simp add: modifications_def map_map_filter comp_def edit_siteAt)
    moreover have "inlineVariable areEqual exported read ast sel =
          Inr (ReadThenWrite (selection c) (modifications c sites (read (selection c))))"
      using h f by (simp add: inlineVariable_def isRedeclared_isReassigned isExported_names)
    ultimately show "inlineVariable areEqual exported read ast sel =
          Inr (ReadThenWrite (selection c)
                 (List.map_filter (editAt areEqual (declaredId c) (read (selection c)))
                    (visits (definingScope c) [])
                  @ [\<lparr>code = [], editSelection = codeToRemoveSelection c\<rparr>]))"
      by simp
  qed
qed

theorem inlineVariable_site_edits_witness:
  "inlineVariable sameName (\<lambda>n. []) (readLines exLines)
       (exFileOf [exDeclaration, exStatement]) (cursor 1 7) =
     Inr (ReadThenWrite (fromAST (range 1 12 1 15))
       [\<lparr>code = ''(bar)'', editSelection = fromAST (range 2 5 2 8)\<rparr>,
        \<lparr>code = ''foo: bar'', editSelection = fromAST (range 2 12 2 15)\<rparr>,
        \<lparr>code = ''bar'', editSelection = fromAST (range 2 19 2 22)\<rparr>,
        \<lparr>code = [], editSelection =
           \<lparr>start = \<lparr>line = 1, column = 0\<rparr>, end' = \<lparr>line = 2, column = 0\<rparr>\<rparr>\<rparr>])
   \<and> readLines exLines (fromAST (range 1 12 1 15)) = ''bar''
   \<and> (\<exists>c. findInlinableCode (exFileOf [exDeclaration, exStatement]) (cursor 1 7) = Some c
        \<and> selection c = fromAST (range 1 12 1 15)
        \<and> List.map_filter
            (editAt sameName (declaredId c) (readLines exLines (fromAST (range 1 12 1 15))))
            (visits (definingScope c) [])
          = [\<lparr>code = ''(bar)'', editSelection = fromAST (range 2 5 2 8)\<rparr>,
             \<lparr>code = ''foo: bar'', editSelection = fromAST (range 2 12 2 15)\<rparr>,
             \<lparr>code = ''bar'', editSelection = fromAST (range 2 19 2 22)\<rparr>])"
proof -
  let ?edits = "[\<lparr>code = ''(bar)'', editSelection = fromAST (range 2 5 2 8)\<rparr>,
        \<lparr>code = ''foo: bar'', editSelection = fromAST (range 2 12 2 15)\<rparr>,
        \<lparr>code = ''bar'', editSelection = fromAST (range 2 19 2 22)\<rparr>]"
  have run: "inlineVariable sameName (\<lambda>n. []) (readLines exLines)
       (exFileOf [exDeclaration, exStatement]) (cursor 1 7) =
     Inr (ReadThenWrite (fromAST (range 1 12 1 15))
       (?edits @ [\<lparr>code = [], editSelection =
           \<lparr>start = \<lparr>line = 1, column = 0\<rparr>, end' = \<lparr>line = 2, column = 0\<rparr>\<rparr>\<rparr>]))"
    by code_simp
  have rd: "readLines exLines (fromAST (range 1 12 1 15)) = ''bar''"
    by code_simp
  have inj: "\<And>l. fromAST (range 1 12 1 15) = fromAST l \<Longrightarrow> l = range 1 12 1 15"
    by (simp add: fromAST_def)
  from inlineVariable_site_edits [of sameName "\<lambda>n. []" "readLines exLines"
      "exFileOf [exDeclaration, exStatement]" "cursor 1 7", THEN conjunct1, rule_format, OF run]
  obtain c p n d idn idLoc init valueLoc
    where c: "findInlinableCode (exFileOf [exDeclaration, exStatement]) (cursor 1 7) = Some c"
      and dc: "declaredId c = (settled idn, idLoc)" "definingScope c = settled p"
      and s: "fromAST (range 1 12 1 15) = selection c" "fromAST (range 1 12 1 15) = fromAST valueLoc"
      and e: "?edits @ [\<lparr>code = [], editSelection =
           \<lparr>start = \<lparr>line = 1, column = 0\<rparr>, end' = \<lparr>line = 2, column = 0\<rparr>\<rparr>\<rparr>] =
          List.map_filter (editAt sameName (settled idn, idLoc) (readLines exLines (fromAST valueLoc)))
            (visits (settled p) [])
          @ [\<lparr>code = [], editSelection = codeToRemoveSelection c\<rparr>]"
    by blast
  have v: "valueLoc = range 1 12 1 15" using inj [OF s(2)] .
  have e': "List.map_filter
            (editAt sameName (declaredId c) (readLines exLines (fromAST (range 1 12 1 15))))
            (visits (definingScope c) []) = ?edits"
    using e unfolding dc v by simp
  have "\<exists>c. findInlinableCode (exFileOf [exDeclaration, exStatement]) (cursor 1 7) = Some c
        \<and> selection c = fromAST (range 1 12 1 15)
        \<and> List.map_filter
            (editAt sameName (declaredId c) (readLines exLines (fromAST (range 1 12 1 15))))
            (visits (definingScope c) []) = ?edits"
    using c s(1) e' by (intro exI [of _ c]) simp
  with run rd show ?thesis by simp
qed

section \<open>Code actions: results\<close>

lemma stringIncludes_iff:
  "stringIncludes filePath part \<longleftrightarrow> (\<exists>pre post. filePath = pre @ part @ post)"
proof
  assume "stringIncludes filePath part"
  then obtain i where t: "take (length part) (drop i filePath) = part"
    unfolding stringIncludes_def list_ex_iff by blast
  have "drop i filePath = part @ drop (length part) (drop i filePath)"
    using append_take_drop_id [of "length part" "drop i filePath"] t by simp
  then have "filePath = take i filePath @ part @ drop (length part) (drop i filePath)"
    using append_take_drop_id [of i filePath] by simp
  then show "\<exists>pre post. filePath = pre @ part @ post" by blast
next
  assume "\<exists>pre post. filePath = pre @ part @ post"
  then obtain pre post where f: "filePath = pre @ part @ post" by blast
  have "length pre \<in> set [0 ..< Suc (length filePath)]"
    by (simp add: f)
  moreover have "take (length part) (drop (length pre) filePath) = part"
    by (simp add: f)
  ultimately show "stringIncludes filePath part"
    unfolding stringIncludes_def list_ex_iff by blast
qed

lemma mapSet_keys:
  "map fst (mapSet k v m) = (if k \<in> fst ` set m then map fst m else map fst m @ [k])"
  by (induction m) auto

lemma mapSet_entries: "set (mapSet k v m) \<subseteq> insert (k, v) (set m)"
  by (induction m) auto

lemma keyed_mapSet:
  assumes "keyed m" and "commandKey r = k"
  shows "keyed (mapSet k r m)"
proof -
  have "distinct (map fst (mapSet k r m))"
    using assms(1) by (auto simp: keyed_def mapSet_keys)
  moreover have "\<forall>e \<in> set (mapSet k r m). commandKey (snd e) = fst e"
    using assms mapSet_entries [of k r m] by (auto simp: keyed_def)
  ultimately show ?thesis by (simp add: keyed_def)
qed

lemma keyed_onMatch: "keyed m \<Longrightarrow> keyed (onMatch r p m)"
  by (auto simp: onMatch_def Let_def intro!: keyed_mapSet split: option.splits)

lemma keyed_fold_onMatch: "keyed m \<Longrightarrow> keyed (fold (onMatch r) ps m)"
  by (induction ps arbitrary: m) (simp_all add: keyed_onMatch)

lemma keyedState_check: "keyedState st \<Longrightarrow> keyedState (checkRefactoring sel path r st)"
  by (auto simp: keyedState_def checkRefactoring_def keyed_fold_onMatch split: sum.splits)

lemma keyedState_checks:
  "keyedState st \<Longrightarrow> keyedState (fold (checkRefactoring sel path) rs st)"
  by (induction rs arbitrary: st) (simp_all add: keyedState_check)

lemma keyedState_paths:
  "keyedState st \<Longrightarrow> keyedState (fold (\<lambda>path. fold (checkRefactoring sel path) rs) paths st)"
  by (induction paths arbitrary: st) (simp_all add: keyedState_checks)

lemma keyed_commands:
  assumes "keyed m"
  shows "distinct (map command (map buildCodeActionFor (map snd m)))"
proof -
  have "map command (map buildCodeActionFor (map snd m)) = map ((@) ''abracadabra.'') (map fst m)"
    using assms by (auto simp: keyed_def buildCodeActionFor_def)
  moreover have "distinct (map ((@) ''abracadabra.'') (map fst m))"
    using assms by (simp add: keyed_def distinct_map inj_on_def)
  ultimately show ?thesis by (simp only:)
qed

lemma findApplicableRefactorings_distinct:
  assumes "findApplicableRefactorings host refactorings paths sel = Inr applicable"
  shows "distinct (map command (map buildCodeActionFor applicable))"
proof -
  let ?rs = "filter (\<lambda>r. shouldShowInQuickFix host (commandKey r)) refactorings"
  have "keyedState (fold (\<lambda>path. fold (checkRefactoring sel path) ?rs) paths (Inr []))"
    by (rule keyedState_paths) (simp add: keyedState_def keyed_def)
  with assms obtain m where "keyed m" and "applicable = map snd m"
    by (auto simp: findApplicableRefactorings_def Let_def keyedState_def split: sum.splits)
  then show ?thesis by (simp only: keyed_commands)
qed

text \<open>
  C10. \<open>provideCodeActions\<close> returns the empty list when the path of the document
  contains an ignored folder between slashes, when no editor can be created, and when
  parsing or traversing throws; it always returns a list (no error escapes), and the
  commands of the actions returned are distinct: one action at most for a command key,
  however many nodes a refactoring matches.
\<close>

theorem provideCodeActions_safe:
  "((\<exists>ignored \<in> set (getIgnoredFolders host). \<exists>pre post.
        documentPath = pre @ ''/'' @ ignored @ ''/'' @ post) \<longrightarrow>
      provideCodeActions host refactorings documentPath = Inr [])
   \<and> (createVSCodeEditor host = None \<longrightarrow>
        provideCodeActions host refactorings documentPath = Inr [])
   \<and> (\<forall>editor e. createVSCodeEditor host = Some editor
          \<and> (parsedPaths host (editorCode editor) = Inl e
              \<or> (\<exists>paths. parsedPaths host (editorCode editor) = Inr paths
                    \<and> findApplicableRefactorings host refactorings paths (editorSelection editor)
                        = Inl e)) \<longrightarrow>
        provideCodeActions host refactorings documentPath = Inr [])
   \<and> (\<exists>actions. provideCodeActions host refactorings documentPath = Inr actions
          \<and> distinct (map command actions))"
proof (intro conjI allI impI)
  assume "\<exists>ignored \<in> set (getIgnoredFolders host). \<exists>pre post.
        documentPath = pre @ ''/'' @ ignored @ ''/'' @ post"
  then have "isNavigatingAnIgnoredFile host documentPath"
    unfolding isNavigatingAnIgnoredFile_def list_ex_iff stringIncludes_iff
    by (metis append.assoc)
  then show "provideCodeActions host refactorings documentPath = Inr []"
    by (simp add: provideCodeActions_def)
next
  assume "createVSCodeEditor host = None"
  then show "provideCodeActions host refactorings documentPath = Inr []"
    by (simp add: provideCodeActions_def)
next
  fix editor e
  assume "createVSCodeEditor host = Some editor
          \<and> (parsedPaths host (editorCode editor) = Inl e
              \<or> (\<exists>paths. parsedPaths host (editorCode editor) = Inr paths
                    \<and> findApplicableRefactorings host refactorings paths (editorSelection editor)
                        = Inl e))"
  then show "provideCodeActions host refactorings documentPath = Inr []"
    by (auto simp: provideCodeActions_def tryProvide_def)
next
  show "\<exists>actions. provideCodeActions host refactorings documentPath = Inr actions
          \<and> distinct (map command actions)"
    by (auto simp: provideCodeActions_def tryProvide_def
          dest: findApplicableRefactorings_distinct split: option.splits sum.splits)
qed

theorem provideCodeActions_safe_witness:
  "provideCodeActions exHost [exFlipIfElse, exMerge] ''/project/node_modules/x/index.js'' = Inr []
   \<and> provideCodeActions (exHost\<lparr>createVSCodeEditor := None\<rparr>) [exFlipIfElse, exMerge] ''/src/app.ts''
       = Inr []
   \<and> provideCodeActions
       (exHost\<lparr>createVSCodeEditor := Some \<lparr>editorCode = ''if ('', editorSelection = cursor 1 0\<rparr>\<rparr>)
       [exFlipIfElse, exMerge] ''/src/app.ts'' = Inr []
   \<and> provideCodeActions exHost [exFlipIfElse, exMerge] ''/src/app.ts''
       = Inr [buildCodeActionFor exFlipIfElse]"
proof -
  let ?rs = "[exFlipIfElse, exMerge]"
  have ig: "\<exists>ignored \<in> set (getIgnoredFolders exHost). \<exists>pre post.
        ''/project/node_modules/x/index.js'' = pre @ ''/'' @ ignored @ ''/'' @ post"
  proof -
    have "''node_modules'' \<in> set (getIgnoredFolders exHost)" by code_simp
    moreover have "''/project/node_modules/x/index.js''
        = ''/project'' @ ''/'' @ ''node_modules'' @ ''/'' @ ''x/index.js''" by simp
    ultimately show ?thesis by blast
  qed
  have ne: "createVSCodeEditor (exHost\<lparr>createVSCodeEditor := None\<rparr>) = None"
    by simp
  let ?h = "exHost\<lparr>createVSCodeEditor := Some \<lparr>editorCode = ''if ('', editorSelection = cursor 1 0\<rparr>\<rparr>"
  have pe: "createVSCodeEditor ?h = Some \<lparr>editorCode = ''if ('', editorSelection = cursor 1 0\<rparr>
            \<and> (parsedPaths ?h (editorCode \<lparr>editorCode = ''if ('', editorSelection = cursor 1 0\<rparr>)
                  = Inl (OtherError ''SyntaxError'')
                \<or> (\<exists>paths. parsedPaths ?h (editorCode \<lparr>editorCode = ''if ('', editorSelection = cursor 1 0\<rparr>) = Inr paths
                    \<and> findApplicableRefactorings ?h ?rs paths
                        (editorSelection \<lparr>editorCode = ''if ('', editorSelection = cursor 1 0\<rparr>)
                        = Inl (OtherError ''SyntaxError'')))"
    by (simp add: exHost_def)
  have run: "provideCodeActions exHost ?rs ''/src/app.ts'' = Inr [buildCodeActionFor exFlipIfElse]"
    by code_simp
  show ?thesis
    using provideCodeActions_safe [of exHost "''/project/node_modules/x/index.js''" ?rs] ig
      provideCodeActions_safe [of "exHost\<lparr>createVSCodeEditor := None\<rparr>" "''/src/app.ts''" ?rs] ne
      provideCodeActions_safe [of ?h "''/src/app.ts''" ?rs] pe run
    by blast
qed

section \<open>Extract variable: results\<close>

text \<open>
  C6. Extracting a node asks the user at most once, and then with exactly two options,
  \<open>Destructure\<close> first and \<open>Preserve\<close> second, whose labels show the declaration each
  choice produces; nothing is asked when a link of the chain is computed, nor when the
  node is no member expression.
\<close>

theorem askUserChoice_options:
  "(askUserChoiceCalls e = []
      \<or> (\<exists>options. askUserChoiceCalls e = [options]
            \<and> map choiceValue options = [Destructure, Preserve]))
   \<and> (hasComputedLink e \<longrightarrow> askUserChoiceCalls e = [])
   \<and> (\<not> isMemberChain e \<longrightarrow> askUserChoiceCalls e = [])
   \<and> (\<forall>object property. e = MemberExpr object property False \<and> \<not> hasComputedLink object \<longrightarrow>
         askUserChoiceCalls e =
           [[\<lparr>label = ''Destructure => '' @ backquote @ ''const { '' @ sourceText property
                       @ '' } = '' @ sourceText object @ backquote,
              choiceValue = Destructure\<rparr>,
             \<lparr>label = ''Preserve => '' @ backquote @ ''const '' @ sourceText property
                       @ '' = '' @ sourceText e @ backquote,
              choiceValue = Preserve\<rparr>]])"
  by (cases e) (auto simp: destructureChoices_def)

theorem askUserChoice_options_witness:
  "askUserChoiceCalls exChain =
     [[\<lparr>label = ''Destructure => '' @ backquote @ ''const { baz } = foo.bar'' @ backquote,
        choiceValue = Destructure\<rparr>,
       \<lparr>label = ''Preserve => '' @ backquote @ ''const baz = foo.bar.baz'' @ backquote,
        choiceValue = Preserve\<rparr>]]
   \<and> askUserChoiceCalls exComputed = []
   \<and> askUserChoiceCalls (StringLiteral ''hello'') = []"
proof -
  have c: "exChain = MemberExpr (MemberExpr (IdentifierExpr ''foo'') (IdentifierExpr ''bar'') False)
             (IdentifierExpr ''baz'') False
           \<and> \<not> hasComputedLink (MemberExpr (IdentifierExpr ''foo'') (IdentifierExpr ''bar'') False)"
    by (simp add: exChain_def)
  have k: "hasComputedLink exComputed" by code_simp
  have l: "\<not> isMemberChain (StringLiteral ''hello'')" by simp
  have "askUserChoiceCalls exChain =
     [[\<lparr>label = ''Destructure => '' @ backquote @ ''const { '' @ sourceText (IdentifierExpr ''baz'')
                 @ '' } = '' @ sourceText (MemberExpr (IdentifierExpr ''foo'') (IdentifierExpr ''bar'') False)
                 @ backquote,
        choiceValue = Destructure\<rparr>,
       \<lparr>label = ''Preserve => '' @ backquote @ ''const '' @ sourceText (IdentifierExpr ''baz'')
                 @ '' = '' @ sourceText exChain @ backquote,
        choiceValue = Preserve\<rparr>]]"
    using askUserChoice_options [of exChain] c by blast
  then have "askUserChoiceCalls exChain =
     [[\<lparr>label = ''Destructure => '' @ backquote @ ''const { baz } = foo.bar'' @ backquote,
        choiceValue = Destructure\<rparr>,
       \<lparr>label = ''Preserve => '' @ backquote @ ''const baz = foo.bar.baz'' @ backquote,
        choiceValue = Preserve\<rparr>]]"
    by (simp add: exChain_def)
  then show ?thesis
    using askUserChoice_options [of exComputed] k
      askUserChoice_options [of "StringLiteral ''hello''"] l
    by blast
qed

end
